theory Spec2Isabelle
  imports Main "HOL-Library.Word"
begin

section \<open>Configuration and construction\<close>

text \<open>
  \<^verbatim>\<open>time.Duration\<close> is a signed 64-bit count of nanoseconds; Go's \<^verbatim>\<open>int\<close> is taken
  at its 64-bit width. Both are words here: arithmetic wraps, \<open>sint\<close> reads the value
  and \<open>\<le>s\<close>, \<open><s\<close> are the signed comparisons of the source.
\<close>

type_synonym Duration = "64 word"
type_synonym go_int = "64 word"

definition Second :: Duration where
  "Second = 1000000000"

definition defaultTimeout :: Duration where
  "defaultTimeout = 30 * Second"

definition defaultBaseURL :: string where
  "defaultBaseURL = ''https://api.moondream.ai/v1''"

definition defaultMaxRetries :: go_int where
  "defaultMaxRetries = 3"

definition defaultRetryDelay :: Duration where
  "defaultRetryDelay = 1 * Second"

record ClientConfig =
  Timeout :: Duration
  BaseURL :: string
  MaxRetries :: go_int
  RetryDelay :: Duration

text \<open>The one field of \<^verbatim>\<open>http.Client\<close> that the package sets.\<close>

record http_Client =
  Client_Timeout :: Duration

text \<open>
  The \<^verbatim>\<open>*http.Client\<close> of a client is allocated by the constructor and reachable
  through this client only, so it is held by value.
\<close>

record MoondreamClient =
  config :: ClientConfig
  client :: http_Client
  apiKey :: string

type_synonym ClientOption = "MoondreamClient \<Rightarrow> MoondreamClient"

definition NewMoondreamClient :: "string \<Rightarrow> ClientOption list \<Rightarrow> MoondreamClient" where
  "NewMoondreamClient key opts =
     (let cfg = \<lparr>Timeout = defaultTimeout, BaseURL = defaultBaseURL,
                 MaxRetries = defaultMaxRetries, RetryDelay = defaultRetryDelay\<rparr>;
          c = \<lparr>config = cfg, client = \<lparr>Client_Timeout = Timeout cfg\<rparr>, apiKey = key\<rparr>
      in foldl (\<lambda>c opt. opt c) c opts)"

definition WithTimeout :: "Duration \<Rightarrow> ClientOption" where
  "WithTimeout timeout c =
     c\<lparr>config := (config c)\<lparr>Timeout := timeout\<rparr>,
       client := (client c)\<lparr>Client_Timeout := timeout\<rparr>\<rparr>"

definition WithBaseURL :: "string \<Rightarrow> ClientOption" where
  "WithBaseURL baseURL c = c\<lparr>config := (config c)\<lparr>BaseURL := baseURL\<rparr>\<rparr>"

section \<open>Errors\<close>

text \<open>
  Status codes are stored and compared, never computed with, so they are integers;
  where one is decoded from JSON the decoder checks that it is in the range of
  \<^verbatim>\<open>int\<close>.
\<close>

record APIError =
  StatusCode :: int
  Message :: string

text \<open>The two values of \<^verbatim>\<open>ctx.Err()\<close> once the context is done.\<close>

datatype ctx_error = Canceled | DeadlineExceeded

text \<open>
  Go's \<^verbatim>\<open>error\<close> values as the package meets them: an error of a library (file system,
  transport, body reader, codec of the payload or of the result), the two errors of
  \<^verbatim>\<open>json.Unmarshal\<close> into an \<^verbatim>\<open>APIError\<close>, the context's error, the package's own
  \<^verbatim>\<open>*APIError\<close>, and \<^verbatim>\<open>fmt.Errorf("<text>: %w", err)\<close>, whose wrapped error is
  \<open>None\<close> when \<^verbatim>\<open>err\<close> is nil.
\<close>

datatype error =
    LibError string
  | SyntaxError
  | UnmarshalTypeError string
  | CtxError ctx_error
  | API APIError
  | Errorf string "error option"

section \<open>Image encoder\<close>

subsection \<open>\<^verbatim>\<open>base64.StdEncoding\<close>\<close>

text \<open>
  The standard alphabet with padding. Three bytes make a 24-bit value, read as four
  6-bit digits; \<open>val div 2 ^ k\<close> is the shift \<^verbatim>\<open>val >> k\<close> and \<open>mod 64\<close> the
  mask \<^verbatim>\<open>& 0x3F\<close>.
\<close>

definition encodeStd :: string where
  "encodeStd = ''ABCDEFGHIJKLMNOPQRSTUVWXYZabcdefghijklmnopqrstuvwxyz0123456789+/''"

definition padChar :: char where
  "padChar = CHR ''=''"

definition enc6 :: "nat \<Rightarrow> char" where
  "enc6 v = encodeStd ! (v mod 64)"

fun EncodeToString :: "string \<Rightarrow> string" where
  "EncodeToString (a # b # c # rest) =
     (let val = of_char a * 65536 + of_char b * 256 + of_char c
      in enc6 (val div 262144) # enc6 (val div 4096) # enc6 (val div 64) # enc6 val
         # EncodeToString rest)"
| "EncodeToString [a, b] =
     (let val = of_char a * 65536 + of_char b * 256
      in [enc6 (val div 262144), enc6 (val div 4096), enc6 (val div 64), padChar])"
| "EncodeToString [a] =
     (let val = of_char a * 65536
      in [enc6 (val div 262144), enc6 (val div 4096), padChar, padChar])"
| "EncodeToString [] = []"

fun index_of :: "'a \<Rightarrow> 'a list \<Rightarrow> nat option" where
  "index_of x [] = None"
| "index_of x (y # ys) = (if x = y then Some 0 else map_option Suc (index_of x ys))"

definition decodeMap :: "char \<Rightarrow> nat option" where
  "decodeMap c = index_of c encodeStd"

definition byte :: "nat \<Rightarrow> char" where
  "byte v = char_of (v mod 256)"

text \<open>
  One quantum of four characters. Padding is accepted in the last quantum only, as
  \<^verbatim>\<open>xx==\<close> or \<^verbatim>\<open>xxx=\<close>; the standard encoding is not strict, so the unused low bits of
  a padded quantum are not checked. \<open>None\<close> is \<^verbatim>\<open>CorruptInputError\<close>.
\<close>

definition decodeQuantum ::
  "char \<Rightarrow> char \<Rightarrow> char \<Rightarrow> char \<Rightarrow> bool \<Rightarrow> string option \<Rightarrow> string option" where
  "decodeQuantum a b c d at_end tail =
     (case decodeMap a of None \<Rightarrow> None | Some x0 \<Rightarrow>
      case decodeMap b of None \<Rightarrow> None | Some x1 \<Rightarrow>
      case decodeMap c of
        None \<Rightarrow>
          (let val = x0 * 262144 + x1 * 4096
           in if c = padChar \<and> d = padChar \<and> at_end
              then Some [byte (val div 65536)] else None)
      | Some x2 \<Rightarrow>
          (case decodeMap d of
             None \<Rightarrow>
               (let val = x0 * 262144 + x1 * 4096 + x2 * 64
                in if d = padChar \<and> at_end
                   then Some [byte (val div 65536), byte (val div 256)] else None)
           | Some x3 \<Rightarrow>
               (let val = x0 * 262144 + x1 * 4096 + x2 * 64 + x3
                in map_option (\<lambda>out. byte (val div 65536) # byte (val div 256) # byte val # out)
                     tail)))"

fun decodeQuanta :: "string \<Rightarrow> string option" where
  "decodeQuanta (a # b # c # d # rest) = decodeQuantum a b c d (rest = []) (decodeQuanta rest)"
| "decodeQuanta [a, b, c] = None"
| "decodeQuanta [a, b] = None"
| "decodeQuanta [a] = None"
| "decodeQuanta [] = Some []"

text \<open>The decoder skips carriage returns and line feeds wherever they stand.\<close>

definition DecodeString :: "string \<Rightarrow> string option" where
  "DecodeString s = decodeQuanta (filter (\<lambda>c. c \<noteq> CHR 0x0A \<and> c \<noteq> CHR 0x0D) s)"

subsection \<open>\<^verbatim>\<open>encodeImage\<close>\<close>

text \<open>
  The file system is the function \<open>ReadFile\<close>, from a path to the error or the bytes
  that \<^verbatim>\<open>os.ReadFile\<close> returns for it.
\<close>

definition encodeImage :: "(string \<Rightarrow> error + string) \<Rightarrow> MoondreamClient \<Rightarrow> string \<Rightarrow> error + string" where
  "encodeImage ReadFile c imagePath =
     (case ReadFile imagePath of
        Inl err \<Rightarrow> Inl (Errorf ''failed to read image file'' (Some err))
      | Inr imageData \<Rightarrow> Inr (''data:image/jpeg;base64,'' @ EncodeToString imageData))"

section \<open>\<^verbatim>\<open>json.Unmarshal\<close> into an \<^verbatim>\<open>APIError\<close>\<close>

text \<open>
  \<^verbatim>\<open>json.Unmarshal(body, &apiErr)\<close> first checks that the whole input is one JSON
  value (a syntax error otherwise, and nothing is stored), then stores the value into
  the struct. The model reads the input in two passes over the same grammar: a lexer,
  and a stack machine over the tokens that builds the value.
\<close>

datatype json =
    JNull
  | JBool bool
  | JNumber string
  | JString string
  | JArray "json list"
  | JObject "(string \<times> json) list"

datatype token =
    TBeginObject | TEndObject | TBeginArray | TEndArray | TColon | TComma
  | TString string | TNumber string | TTrue | TFalse | TNull

subsection \<open>Lexer\<close>

definition byteval :: "char \<Rightarrow> nat" where
  "byteval c = of_char c"

definition isSpace :: "char \<Rightarrow> bool" where
  "isSpace c = (c = CHR '' '' \<or> c = CHR 0x09 \<or> c = CHR 0x0D \<or> c = CHR 0x0A)"

definition isDigit :: "char \<Rightarrow> bool" where
  "isDigit c = (48 \<le> byteval c \<and> byteval c \<le> 57)"

definition isHex :: "char \<Rightarrow> bool" where
  "isHex c = (isDigit c \<or> (97 \<le> byteval c \<and> byteval c \<le> 102) \<or> (65 \<le> byteval c \<and> byteval c \<le> 70))"

definition hexval :: "char \<Rightarrow> nat" where
  "hexval c = (if isDigit c then byteval c - 48 else if 97 \<le> byteval c then byteval c - 87 else byteval c - 55)"

text \<open>Length of the string literal whose opening quote has been read, closing quote included.\<close>

fun scanString :: "string \<Rightarrow> nat option" where
  "scanString [] = None"
| "scanString (c # cs) =
     (if c = CHR 0x22 then Some 1
      else if c = CHR 0x5C then
        (case cs of
           [] \<Rightarrow> None
         | e # es \<Rightarrow>
             if e \<in> set [CHR ''b'', CHR ''f'', CHR ''n'', CHR ''r'', CHR ''t'', CHR 0x5C, CHR ''/'', CHR 0x22]
             then map_option (\<lambda>n. n + 2) (scanString es)
             else if e = CHR ''u'' \<and> 4 \<le> length es \<and> list_all isHex (take 4 es)
             then map_option (\<lambda>n. n + 6) (scanString (drop 4 es))
             else None)
      else if byteval c < 32 then None
      else map_option Suc (scanString cs))"

definition scanDigits :: "string \<Rightarrow> nat" where
  "scanDigits cs = length (takeWhile isDigit cs)"

definition scanExp :: "string \<Rightarrow> nat option" where
  "scanExp cs =
     (case cs of
        [] \<Rightarrow> Some 0
      | e # r \<Rightarrow>
          if e = CHR ''e'' \<or> e = CHR ''E'' then
            (let s = (case r of [] \<Rightarrow> 0 | g # _ \<Rightarrow> if g = CHR ''+'' \<or> g = CHR ''-'' then 1 else 0);
                 n = scanDigits (drop s r)
             in if n = 0 then None else Some (1 + s + n))
          else Some 0)"

definition scanFrac :: "string \<Rightarrow> nat option" where
  "scanFrac cs =
     (case cs of
        [] \<Rightarrow> Some 0
      | p # r \<Rightarrow>
          if p = CHR ''.'' then
            (let n = scanDigits r
             in if n = 0 then None else map_option (\<lambda>k. 1 + n + k) (scanExp (drop n r)))
          else scanExp cs)"

definition scanInt :: "string \<Rightarrow> nat option" where
  "scanInt cs =
     (case cs of
        [] \<Rightarrow> None
      | d # r \<Rightarrow>
          if d = CHR ''0'' then map_option Suc (scanFrac r)
          else if isDigit d then
            (let n = scanDigits r in map_option (\<lambda>k. 1 + n + k) (scanFrac (drop n r)))
          else None)"

definition scanNumber :: "string \<Rightarrow> nat option" where
  "scanNumber cs =
     (case cs of
        [] \<Rightarrow> None
      | c # r \<Rightarrow> if c = CHR ''-'' then map_option Suc (scanInt r) else scanInt cs)"

text \<open>\<^verbatim>\<open>utf8.EncodeRune\<close>, for the code points that reach it (no surrogate, at most 0x10FFFF).\<close>

definition EncodeRune :: "nat \<Rightarrow> string" where
  "EncodeRune r =
     (if r < 128 then [char_of r]
      else if r < 2048 then [char_of (192 + r div 64), char_of (128 + r mod 64)]
      else if r < 65536 then
        [char_of (224 + r div 4096), char_of (128 + r div 64 mod 64), char_of (128 + r mod 64)]
      else
        [char_of (240 + r div 262144), char_of (128 + r div 4096 mod 64),
         char_of (128 + r div 64 mod 64), char_of (128 + r mod 64)])"

definition isCont :: "nat \<Rightarrow> nat \<Rightarrow> char \<Rightarrow> bool" where
  "isCont lo hi c = (lo \<le> byteval c \<and> byteval c \<le> hi)"

text \<open>
  \<^verbatim>\<open>utf8.DecodeRune\<close> as far as the decoder uses it: the number of bytes of the well-formed
  encoding at the head of the input, 0 when there is none (RuneError, width 1).
\<close>

definition runeLen :: "string \<Rightarrow> nat" where
  "runeLen s =
     (case s of
        [] \<Rightarrow> 0
      | c # cs \<Rightarrow>
          let b = byteval c in
          if b < 128 then 1
          else if 194 \<le> b \<and> b \<le> 223 then
            (if 1 \<le> length cs \<and> isCont 128 191 (cs ! 0) then 2 else 0)
          else if 224 \<le> b \<and> b \<le> 239 then
            (if 2 \<le> length cs
                \<and> isCont (if b = 224 then 160 else 128) (if b = 237 then 159 else 191) (cs ! 0)
                \<and> isCont 128 191 (cs ! 1) then 3 else 0)
          else if 240 \<le> b \<and> b \<le> 244 then
            (if 3 \<le> length cs
                \<and> isCont (if b = 240 then 144 else 128) (if b = 244 then 143 else 191) (cs ! 0)
                \<and> isCont 128 191 (cs ! 1) \<and> isCont 128 191 (cs ! 2) then 4 else 0)
          else 0)"

definition getu4 :: "string \<Rightarrow> nat option" where
  "getu4 s =
     (if 6 \<le> length s \<and> s ! 0 = CHR 0x5C \<and> s ! 1 = CHR ''u'' \<and> list_all isHex (take 4 (drop 2 s))
      then Some (foldl (\<lambda>a c. a * 16 + hexval c) 0 (take 4 (drop 2 s)))
      else None)"

definition ReplacementChar :: nat where
  "ReplacementChar = 65533"

text \<open>
  The escape sequence \<^verbatim>\<open>\u....\<close> at the head of the input: its bytes and how many
  characters of the input it takes (6, or 12 for a surrogate pair).
\<close>

definition unquoteU :: "string \<Rightarrow> string \<times> nat" where
  "unquoteU s =
     (case getu4 s of
        None \<Rightarrow> ([], 6)
      | Some rr \<Rightarrow>
          if 55296 \<le> rr \<and> rr < 57344 then
            (case getu4 (drop 6 s) of
               Some rr1 \<Rightarrow>
                 if rr < 56320 \<and> 56320 \<le> rr1 \<and> rr1 < 57344
                 then (EncodeRune ((rr - 55296) * 1024 + (rr1 - 56320) + 65536), 12)
                 else (EncodeRune ReplacementChar, 6)
             | None \<Rightarrow> (EncodeRune ReplacementChar, 6))
          else (EncodeRune rr, 6))"

definition unquoteEsc :: "char \<Rightarrow> char" where
  "unquoteEsc e =
     (if e = CHR ''b'' then CHR 0x08 else if e = CHR ''f'' then CHR 0x0C
      else if e = CHR ''n'' then CHR 0x0A else if e = CHR ''r'' then CHR 0x0D
      else if e = CHR ''t'' then CHR 0x09 else e)"

text \<open>
  \<^verbatim>\<open>unquoteBytes\<close> on the inside of a literal that the scanner has accepted: escapes
  are replaced by the bytes they stand for, and a byte that does not start a
  well-formed UTF-8 sequence by the replacement character U+FFFD.
\<close>

fun unquote :: "string \<Rightarrow> string" where
  "unquote [] = []"
| "unquote (c # cs) =
     (if c = CHR 0x5C then
        (case cs of
           [] \<Rightarrow> []
         | e # es \<Rightarrow>
             if e = CHR ''u'' then
               (let (bs, n) = unquoteU (c # cs) in bs @ unquote (drop (n - 1) cs))
             else unquoteEsc e # unquote es)
      else if byteval c < 128 then c # unquote cs
      else
        (let n = runeLen (c # cs)
         in if n = 0 then EncodeRune ReplacementChar @ unquote cs
            else take n (c # cs) @ unquote (drop (n - 1) cs)))"

definition isPrefixAt :: "string \<Rightarrow> string \<Rightarrow> bool" where
  "isPrefixAt p s = (take (length p) s = p)"

fun tokens :: "string \<Rightarrow> token list option" where
  "tokens [] = Some []"
| "tokens (c # cs) =
     (if isSpace c then tokens cs
      else if c = CHR ''{'' then map_option (Cons TBeginObject) (tokens cs)
      else if c = CHR ''}'' then map_option (Cons TEndObject) (tokens cs)
      else if c = CHR ''['' then map_option (Cons TBeginArray) (tokens cs)
      else if c = CHR '']'' then map_option (Cons TEndArray) (tokens cs)
      else if c = CHR '':'' then map_option (Cons TColon) (tokens cs)
      else if c = CHR '','' then map_option (Cons TComma) (tokens cs)
      else if c = CHR 0x22 then
        (case scanString cs of
           None \<Rightarrow> None
         | Some n \<Rightarrow> map_option (Cons (TString (unquote (take (n - 1) cs)))) (tokens (drop n cs)))
      else if c = CHR ''-'' \<or> isDigit c then
        (case scanNumber (c # cs) of
           None \<Rightarrow> None
         | Some n \<Rightarrow> map_option (Cons (TNumber (take n (c # cs)))) (tokens (drop (n - 1) cs)))
      else if isPrefixAt ''true'' (c # cs) then map_option (Cons TTrue) (tokens (drop 3 cs))
      else if isPrefixAt ''false'' (c # cs) then map_option (Cons TFalse) (tokens (drop 4 cs))
      else if isPrefixAt ''null'' (c # cs) then map_option (Cons TNull) (tokens (drop 3 cs))
      else None)"

subsection \<open>Parser\<close>

text \<open>
  The open arrays and objects, innermost first: the elements or members read so far,
  and for an object the key whose value is being read. The states are those of the
  scanner of \<^verbatim>\<open>encoding/json\<close> between tokens; arrays and objects nest at most
  \<open>maxNestingDepth\<close> deep.
\<close>

datatype frame = FArray "json list" | FObject "(string \<times> json) list" string

datatype pstate =
    BeginValue
  | BeginValueOrEmpty
  | BeginStringOrEmpty
  | BeginString
  | ObjectKey string
  | EndValue
  | EndTop json

definition maxNestingDepth :: nat where
  "maxNestingDepth = 10000"

text \<open>A value is complete: it goes into the innermost open array or object.\<close>

fun complete :: "json \<Rightarrow> frame list \<Rightarrow> pstate \<times> frame list" where
  "complete v [] = (EndTop v, [])"
| "complete v (FArray els # st) = (EndValue, FArray (els @ [v]) # st)"
| "complete v (FObject ms k # st) = (EndValue, FObject (ms @ [(k, v)]) k # st)"

definition beginValue :: "token \<Rightarrow> frame list \<Rightarrow> (pstate \<times> frame list) option" where
  "beginValue t st =
     (case t of
        TBeginObject \<Rightarrow>
          if length st < maxNestingDepth then Some (BeginStringOrEmpty, FObject [] [] # st) else None
      | TBeginArray \<Rightarrow>
          if length st < maxNestingDepth then Some (BeginValueOrEmpty, FArray [] # st) else None
      | TString s \<Rightarrow> Some (complete (JString s) st)
      | TNumber n \<Rightarrow> Some (complete (JNumber n) st)
      | TTrue \<Rightarrow> Some (complete (JBool True) st)
      | TFalse \<Rightarrow> Some (complete (JBool False) st)
      | TNull \<Rightarrow> Some (complete JNull st)
      | _ \<Rightarrow> None)"

definition closeFrame :: "frame list \<Rightarrow> (pstate \<times> frame list) option" where
  "closeFrame st =
     (case st of
        FArray els # st' \<Rightarrow> Some (complete (JArray els) st')
      | FObject ms k # st' \<Rightarrow> Some (complete (JObject ms) st')
      | [] \<Rightarrow> None)"

definition parseStep :: "pstate \<Rightarrow> frame list \<Rightarrow> token \<Rightarrow> (pstate \<times> frame list) option" where
  "parseStep ps st t =
     (case ps of
        BeginValue \<Rightarrow> beginValue t st
      | BeginValueOrEmpty \<Rightarrow> if t = TEndArray then closeFrame st else beginValue t st
      | BeginStringOrEmpty \<Rightarrow>
          (case t of
             TEndObject \<Rightarrow> closeFrame st
           | TString k \<Rightarrow> Some (ObjectKey k, st)
           | _ \<Rightarrow> None)
      | BeginString \<Rightarrow> (case t of TString k \<Rightarrow> Some (ObjectKey k, st) | _ \<Rightarrow> None)
      | ObjectKey k \<Rightarrow>
          (case (t, st) of
             (TColon, FObject ms _ # st') \<Rightarrow> Some (BeginValue, FObject ms k # st')
           | _ \<Rightarrow> None)
      | EndValue \<Rightarrow>
          (case st of
             FArray els # st' \<Rightarrow>
               if t = TComma then Some (BeginValue, st)
               else if t = TEndArray then closeFrame st else None
           | FObject ms k # st' \<Rightarrow>
               if t = TComma then Some (BeginString, st)
               else if t = TEndObject then closeFrame st else None
           | [] \<Rightarrow> None)
      | EndTop v \<Rightarrow> None)"

fun parseTokens :: "pstate \<Rightarrow> frame list \<Rightarrow> token list \<Rightarrow> json option" where
  "parseTokens ps st [] = (case ps of EndTop v \<Rightarrow> Some v | _ \<Rightarrow> None)"
| "parseTokens ps st (t # ts) =
     (case parseStep ps st t of None \<Rightarrow> None | Some (ps', st') \<Rightarrow> parseTokens ps' st' ts)"

definition parseJSON :: "string \<Rightarrow> json option" where
  "parseJSON data = (case tokens data of None \<Rightarrow> None | Some ts \<Rightarrow> parseTokens BeginValue [] ts)"

subsection \<open>Storing the value into the struct\<close>

text \<open>
  A member of an object goes to the field whose JSON name equals its key, or else to
  the field whose name equals the key under Unicode simple case folding. Folding maps
  the ASCII letters to upper case and two other runes to ASCII letters (U+017F to S,
  U+212A to K); every other rune folds to a rune outside ASCII, which no name of a
  field of \<^verbatim>\<open>APIError\<close> contains, and is left as it is here. Members that match no
  field are skipped. \<^verbatim>\<open>null\<close> stores nothing; a value of another type than the
  field's is an \<^verbatim>\<open>UnmarshalTypeError\<close>, of which the first is returned once the whole
  value has been read.
\<close>

definition toUpperASCII :: "char \<Rightarrow> char" where
  "toUpperASCII c = (if 97 \<le> byteval c \<and> byteval c \<le> 122 then char_of (byteval c - 32) else c)"

fun foldName :: "string \<Rightarrow> string" where
  "foldName [] = []"
| "foldName (c # cs) =
     (if byteval c < 128 then toUpperASCII c # foldName cs
      else if isPrefixAt [CHR 0xC5, CHR 0xBF] (c # cs) then CHR ''S'' # foldName (drop 1 cs)
      else if isPrefixAt [CHR 0xE2, CHR 0x84, CHR 0xAA] (c # cs) then CHR ''K'' # foldName (drop 2 cs)
      else c # foldName cs)"

datatype api_field = F_StatusCode | F_Message

definition fieldNames :: "(string \<times> api_field) list" where
  "fieldNames = [(''status_code'', F_StatusCode), (''message'', F_Message)]"

definition findField :: "string \<Rightarrow> api_field option" where
  "findField key =
     (case map_of fieldNames key of
        Some f \<Rightarrow> Some f
      | None \<Rightarrow> map_of (map (\<lambda>(n, f). (foldName n, f)) fieldNames) (foldName key))"

text \<open>
  The \<^verbatim>\<open>Value\<close> of an \<^verbatim>\<open>UnmarshalTypeError\<close>: the kind of the JSON value. The text
  of a number is added only where a number that is not an integer in range is stored
  into an integer field.
\<close>

definition describe :: "json \<Rightarrow> string" where
  "describe v =
     (case v of
        JNull \<Rightarrow> ''null'' | JBool _ \<Rightarrow> ''bool'' | JNumber n \<Rightarrow> ''number''
      | JString _ \<Rightarrow> ''string'' | JArray _ \<Rightarrow> ''array'' | JObject _ \<Rightarrow> ''object'')"

text \<open>\<^verbatim>\<open>strconv.ParseInt(s, 10, 64)\<close> on the text of a JSON number: an integer literal in the range of \<^verbatim>\<open>int\<close>.\<close>

definition ParseInt :: "string \<Rightarrow> int option" where
  "ParseInt s =
     (let neg = (s \<noteq> [] \<and> hd s = CHR ''-'');
          ds = (if neg then tl s else s);
          n = foldl (\<lambda>a c. a * 10 + int (byteval c - 48)) 0 ds;
          v = (if neg then - n else n)
      in if ds \<noteq> [] \<and> list_all isDigit ds \<and> - (2 ^ 63) \<le> v \<and> v < 2 ^ 63
         then Some v else None)"

definition storeField :: "api_field \<Rightarrow> json \<Rightarrow> APIError \<Rightarrow> APIError \<times> error option" where
  "storeField f v a =
     (case v of
        JNull \<Rightarrow> (a, None)
      | JNumber n \<Rightarrow>
          (case f of
             F_StatusCode \<Rightarrow>
               (case ParseInt n of
                  Some i \<Rightarrow> (a\<lparr>StatusCode := i\<rparr>, None)
                | None \<Rightarrow> (a, Some (UnmarshalTypeError (''number '' @ n))))
           | F_Message \<Rightarrow> (a, Some (UnmarshalTypeError (describe v))))
      | JString s \<Rightarrow>
          (case f of
             F_Message \<Rightarrow> (a\<lparr>Message := s\<rparr>, None)
           | F_StatusCode \<Rightarrow> (a, Some (UnmarshalTypeError (describe v))))
      | _ \<Rightarrow> (a, Some (UnmarshalTypeError (describe v))))"

definition saveError :: "error option \<Rightarrow> error option \<Rightarrow> error option" where
  "saveError saved e = (case saved of None \<Rightarrow> e | Some _ \<Rightarrow> saved)"

fun decodeMembers :: "(string \<times> json) list \<Rightarrow> APIError \<times> error option \<Rightarrow> APIError \<times> error option" where
  "decodeMembers [] acc = acc"
| "decodeMembers ((k, v) # ms) (a, saved) =
     (case findField k of
        None \<Rightarrow> decodeMembers ms (a, saved)
      | Some f \<Rightarrow> (let (a', e) = storeField f v a in decodeMembers ms (a', saveError saved e)))"

definition decodeAPIError :: "json \<Rightarrow> APIError \<times> error option" where
  "decodeAPIError v =
     (let zero = \<lparr>StatusCode = 0, Message = []\<rparr>
      in case v of
           JObject ms \<Rightarrow> decodeMembers ms (zero, None)
         | JNull \<Rightarrow> (zero, None)
         | _ \<Rightarrow> (zero, Some (UnmarshalTypeError (describe v))))"

definition json_Unmarshal_APIError :: "string \<Rightarrow> error + APIError" where
  "json_Unmarshal_APIError data =
     (case parseJSON data of
        None \<Rightarrow> Inl SyntaxError
      | Some v \<Rightarrow> (case decodeAPIError v of (a, None) \<Rightarrow> Inr a | (a, Some e) \<Rightarrow> Inl e))"

text \<open>The value is an object with a member that \<^verbatim>\<open>json.Unmarshal\<close> stores into \<^verbatim>\<open>StatusCode\<close>.\<close>

definition names_status_code :: "json \<Rightarrow> bool" where
  "names_status_code v =
     (case v of
        JObject ms \<Rightarrow> list_ex (\<lambda>(k, x). findField k = Some F_StatusCode) ms
      | _ \<Rightarrow> False)"

section \<open>Request executor\<close>

subsection \<open>Requests\<close>

text \<open>
  \<open>ParsedURL s\<close> is the \<^verbatim>\<open>*url.URL\<close> that \<^verbatim>\<open>url.Parse\<close> returns for the string
  \<open>s\<close>; its components, and how it prints, are not modelled.
\<close>

datatype url = ParsedURL string

text \<open>
  The fields of an \<^verbatim>\<open>*http.Request\<close> that stay as they were set when it was built.
  For a body given as a \<^verbatim>\<open>*bytes.Buffer\<close> these are \<^verbatim>\<open>ContentLength\<close>, the length
  of the buffer, and \<^verbatim>\<open>GetBody\<close>, which yields a new reader over the same bytes. The
  field \<^verbatim>\<open>Body\<close>, a reader over the buffer itself, is drained by whoever reads it
  and is not part of the record: the record says how a request was built, not what
  is left of its body.
\<close>

record Request =
  Method :: string
  URL :: url
  Header :: "string \<rightharpoonup> string list"
  ContentLength :: int
  GetBody :: string

text \<open>
  \<^verbatim>\<open>Header.Set\<close> replaces the values of a key by the one given. It stores under
  the canonical form of the key; the two keys that the package passes are in canonical
  form already.
\<close>

definition Header_Set :: "string \<Rightarrow> string \<Rightarrow> Request \<Rightarrow> Request" where
  "Header_Set key v req = req\<lparr>Header := (Header req)(key \<mapsto> [v])\<rparr>"

definition Header_Get :: "Request \<Rightarrow> string \<Rightarrow> string" where
  "Header_Get req key = (case Header req key of Some (v # _) \<Rightarrow> v | _ \<Rightarrow> [])"

text \<open>
  \<^verbatim>\<open>http.NewRequestWithContext(ctx, method, url, bytes.NewBuffer(body))\<close> with a
  valid method. \<open>url_Parse\<close> gives the error of \<^verbatim>\<open>url.Parse\<close> on the URL, if any.
  The context is the one the caller was given and is taken not to be nil; with a nil
  context the construction fails as well.
\<close>

definition NewRequestWithContext ::
  "(string \<Rightarrow> error option) \<Rightarrow> string \<Rightarrow> string \<Rightarrow> string \<Rightarrow> error + Request" where
  "NewRequestWithContext url_Parse method url body =
     (case url_Parse url of
        Some err \<Rightarrow> Inl err
      | None \<Rightarrow>
          Inr \<lparr>Method = method, URL = ParsedURL url, Header = Map.empty,
               ContentLength = int (length body), GetBody = body\<rparr>)"

text \<open>
  Lines 78 to 89 of \<^verbatim>\<open>sendRequest\<close>: the payload is serialised by \<open>marshal\<close>
  (\<^verbatim>\<open>json.Marshal\<close> at the payload's type) and the request is built once, before the
  retry loop.
\<close>

definition newRequest ::
  "('p \<Rightarrow> error + string) \<Rightarrow> (string \<Rightarrow> error option) \<Rightarrow> MoondreamClient \<Rightarrow> string \<Rightarrow> 'p
     \<Rightarrow> error + Request" where
  "newRequest marshal url_Parse c endpoint payload =
     (case marshal payload of
        Inl err \<Rightarrow> Inl (Errorf ''failed to marshal payload'' (Some err))
      | Inr jsonPayload \<Rightarrow>
          (case NewRequestWithContext url_Parse ''POST'' (BaseURL (config c) @ endpoint) jsonPayload of
             Inl err \<Rightarrow> Inl (Errorf ''failed to create request'' (Some err))
           | Inr req \<Rightarrow>
               Inr (Header_Set ''Content-Type'' ''application/json''
                     (Header_Set ''X-Moondream-Auth'' (apiKey c) req))))"

subsection \<open>The world of one attempt\<close>

text \<open>
  What the outside does at one pass through the loop: which case of the \<^verbatim>\<open>select\<close>
  is ready first (read only when \<^verbatim>\<open>attempt > 0\<close>), and what \<^verbatim>\<open>c.client.Do\<close> and
  \<^verbatim>\<open>io.ReadAll\<close> return. The world of an invocation is a sequence of these, one per
  pass.
\<close>

datatype select_outcome = CtxDone ctx_error | TimerFired

record Response =
  resp_StatusCode :: int
  resp_Body :: "error + string"

record attempt_env =
  select_result :: select_outcome
  do_result :: "error + Response"

text \<open>
  The effects of an invocation, in order: \<open>After d\<close> is a \<^verbatim>\<open>select\<close> entered with
  the timer \<^verbatim>\<open>time.After(d)\<close>, \<open>Do req\<close> a call of \<^verbatim>\<open>c.client.Do\<close> on the
  request that was built as \<open>req\<close>. All passes call it on the same request; how much
  of its body the earlier calls have read is the transport's doing and is not
  recorded.
\<close>

datatype event = After Duration | Do Request

fun sends :: "event list \<Rightarrow> Request list" where
  "sends [] = []"
| "sends (Do req # evs) = req # sends evs"
| "sends (After d # evs) = sends evs"

fun waits :: "event list \<Rightarrow> Duration list" where
  "waits [] = []"
| "waits (After d # evs) = d # waits evs"
| "waits (Do req # evs) = waits evs"

subsection \<open>The loop body\<close>

text \<open>Lines 115 to 121: the error of a response with status 400 or more.\<close>

definition responseError :: "int \<Rightarrow> string \<Rightarrow> APIError" where
  "responseError status body =
     (case json_Unmarshal_APIError body of
        Inl err \<Rightarrow> \<lparr>StatusCode = status, Message = body\<rparr>
      | Inr apiErr \<Rightarrow> apiErr)"

text \<open>
  One pass ends in a \<^verbatim>\<open>return\<close> or in a \<^verbatim>\<open>continue\<close> that has set \<^verbatim>\<open>lastErr\<close>.
  Both carry the state of \<^verbatim>\<open>*result\<close> and the effects of the pass. The result is
  decoded by \<open>unmarshal\<close> (\<^verbatim>\<open>json.Unmarshal\<close> at the type behind \<^verbatim>\<open>result\<close>), which
  may store into \<^verbatim>\<open>*result\<close> also when it fails.
\<close>

datatype 'r outcome =
    Return "error option" 'r "event list"
  | Continue error 'r "event list"

definition attempt_body ::
  "(string \<Rightarrow> 'r \<Rightarrow> error option \<times> 'r) \<Rightarrow> MoondreamClient \<Rightarrow> Request \<Rightarrow> attempt_env
     \<Rightarrow> go_int \<Rightarrow> 'r \<Rightarrow> 'r outcome" where
  "attempt_body unmarshal c req w attempt result =
     (let waited = (if 0 <s attempt then [After (RetryDelay (config c) * attempt)] else [])
      in case (if 0 <s attempt then select_result w else TimerFired) of
           CtxDone e \<Rightarrow> Return (Some (CtxError e)) result waited
         | TimerFired \<Rightarrow>
             (case do_result w of
                Inl err \<Rightarrow>
                  Continue (Errorf ''failed to send request'' (Some err)) result (waited @ [Do req])
              | Inr resp \<Rightarrow>
                  (case resp_Body resp of
                     Inl err \<Rightarrow>
                       Continue (Errorf ''failed to read response body'' (Some err)) result
                         (waited @ [Do req])
                   | Inr body \<Rightarrow>
                       if 400 \<le> resp_StatusCode resp then
                         (let lastErr = API (responseError (resp_StatusCode resp) body)
                          in if resp_StatusCode resp < 500
                             then Return (Some lastErr) result (waited @ [Do req])
                             else Continue lastErr result (waited @ [Do req]))
                       else
                         (case unmarshal body result of
                            (Some err, result') \<Rightarrow>
                              Continue (Errorf ''failed to unmarshal response'' (Some err)) result'
                                (waited @ [Do req])
                          | (None, result') \<Rightarrow> Return None result' (waited @ [Do req])))))"

subsection \<open>The retry loop and \<^verbatim>\<open>sendRequest\<close>\<close>

text \<open>
  \<^verbatim>\<open>for attempt := 0; attempt <= c.config.MaxRetries; attempt++\<close>, with the counter
  at its machine width. The loop need not end (the counter wraps when \<^verbatim>\<open>MaxRetries\<close>
  is the largest \<^verbatim>\<open>int\<close>), so it is a partial function: \<open>None\<close> is a run that does
  not return. A run that returns gives the error (\<open>None\<close> for nil), the state of
  \<^verbatim>\<open>*result\<close> and the effects. The world is consumed one pass at a time.
\<close>

partial_function (option) retry_loop ::
  "(string \<Rightarrow> 'r \<Rightarrow> error option \<times> 'r) \<Rightarrow> MoondreamClient \<Rightarrow> Request \<Rightarrow> (nat \<Rightarrow> attempt_env)
     \<Rightarrow> go_int \<Rightarrow> error option \<Rightarrow> 'r \<Rightarrow> event list \<Rightarrow> (error option \<times> 'r \<times> event list) option" where
  "retry_loop unmarshal c req env attempt lastErr result tr =
     (if attempt \<le>s MaxRetries (config c) then
        (case attempt_body unmarshal c req (env 0) attempt result of
           Return err result' evs \<Rightarrow> Some (err, result', tr @ evs)
         | Continue err result' evs \<Rightarrow>
             retry_loop unmarshal c req (\<lambda>i. env (Suc i)) (attempt + 1) (Some err) result' (tr @ evs))
      else Some (Some (Errorf ''max retries exceeded'' lastErr), result, tr))"

definition sendRequest ::
  "('p \<Rightarrow> error + string) \<Rightarrow> (string \<Rightarrow> error option) \<Rightarrow> (string \<Rightarrow> 'r \<Rightarrow> error option \<times> 'r)
     \<Rightarrow> MoondreamClient \<Rightarrow> (nat \<Rightarrow> attempt_env) \<Rightarrow> string \<Rightarrow> 'p \<Rightarrow> 'r
     \<Rightarrow> (error option \<times> 'r \<times> event list) option" where
  "sendRequest marshal url_Parse unmarshal c env endpoint payload result =
     (case newRequest marshal url_Parse c endpoint payload of
        Inl err \<Rightarrow> Some (Some err, result, [])
      | Inr req \<Rightarrow> retry_loop unmarshal c req env 0 None result [])"

text \<open>
  The same loop with the number of passes still to make as a structural argument: a
  total function, equal to \<open>retry_loop\<close> wherever the counter does not wrap
  (lemma \<open>retry_loop_bounded\<close>).
\<close>

fun bounded_loop ::
  "(string \<Rightarrow> 'r \<Rightarrow> error option \<times> 'r) \<Rightarrow> MoondreamClient \<Rightarrow> Request \<Rightarrow> (nat \<Rightarrow> attempt_env)
     \<Rightarrow> nat \<Rightarrow> nat \<Rightarrow> error option \<Rightarrow> 'r \<Rightarrow> event list \<Rightarrow> error option \<times> 'r \<times> event list" where
  "bounded_loop unmarshal c req env 0 n lastErr result tr =
     (Some (Errorf ''max retries exceeded'' lastErr), result, tr)"
| "bounded_loop unmarshal c req env (Suc k) n lastErr result tr =
     (case attempt_body unmarshal c req (env 0) (of_nat n) result of
        Return err result' evs \<Rightarrow> (err, result', tr @ evs)
      | Continue err result' evs \<Rightarrow>
          bounded_loop unmarshal c req (\<lambda>i. env (Suc i)) k (Suc n) (Some err) result' (tr @ evs))"

text \<open>
  The state of the loop (\<^verbatim>\<open>lastErr\<close>, \<^verbatim>\<open>*result\<close>, effects so far) after \<open>k\<close> passes
  that all ended in \<^verbatim>\<open>continue\<close>, the first of them with counter \<open>n\<close>; \<open>None\<close> when
  one of them returned.
\<close>

fun passes ::
  "(string \<Rightarrow> 'r \<Rightarrow> error option \<times> 'r) \<Rightarrow> MoondreamClient \<Rightarrow> Request \<Rightarrow> (nat \<Rightarrow> attempt_env)
     \<Rightarrow> nat \<Rightarrow> nat \<Rightarrow> error option \<Rightarrow> 'r \<Rightarrow> event list \<Rightarrow> (error option \<times> 'r \<times> event list) option" where
  "passes unmarshal c req env 0 n lastErr result tr = Some (lastErr, result, tr)"
| "passes unmarshal c req env (Suc k) n lastErr result tr =
     (case attempt_body unmarshal c req (env 0) (of_nat n) result of
        Return err result' evs \<Rightarrow> None
      | Continue err result' evs \<Rightarrow>
          passes unmarshal c req (\<lambda>i. env (Suc i)) k (Suc n) (Some err) result' (tr @ evs))"

text \<open>
  The effects of \<open>k\<close> passes that each wait (but for pass 0) and then attempt once, the
  first of them with counter \<open>n\<close>, for the retry delay \<open>d\<close>.
\<close>

fun backoff_trace :: "Duration \<Rightarrow> Request \<Rightarrow> nat \<Rightarrow> nat \<Rightarrow> event list" where
  "backoff_trace d req n 0 = []"
| "backoff_trace d req n (Suc k) =
     (if 0 < n then [After (d * of_nat n)] else []) @ Do req # backoff_trace d req (Suc n) k"

text \<open>A world in which no pass returns, whatever the counter and the state of the result.\<close>

definition always_continues ::
  "(string \<Rightarrow> 'r \<Rightarrow> error option \<times> 'r) \<Rightarrow> MoondreamClient \<Rightarrow> Request \<Rightarrow> (nat \<Rightarrow> attempt_env) \<Rightarrow> bool" where
  "always_continues unmarshal c req env =
     (\<forall>i attempt result. \<exists>err result' evs.
        attempt_body unmarshal c req (env i) attempt result = Continue err result' evs)"

subsection \<open>Worlds of the examples\<close>

definition test_client :: MoondreamClient where
  "test_client = NewMoondreamClient ''test-api-key'' []"

text \<open>A payload that serialises to the empty object, and a URL parser that accepts.\<close>

definition marshal_unit :: "unit \<Rightarrow> error + string" where
  "marshal_unit p = Inr ''{}''"

definition url_ok :: "string \<Rightarrow> error option" where
  "url_ok u = None"

text \<open>A result that is one string, decoded from the one body the example server sends.\<close>

definition unmarshal_caption :: "string \<Rightarrow> string \<Rightarrow> error option \<times> string" where
  "unmarshal_caption body result =
     (if body = ''{\"caption\":\"a cat on a mat\"}'' then (None, ''a cat on a mat'')
      else (Some (LibError ''cannot unmarshal''), result))"

text \<open>The server answers every attempt with the same response, and no wait is cancelled.\<close>

definition replies :: "Response \<Rightarrow> nat \<Rightarrow> attempt_env" where
  "replies resp i = \<lparr>select_result = TimerFired, do_result = Inr resp\<rparr>"

text \<open>The request that \<open>test_client\<close> builds for the endpoint and \<open>marshal_unit\<close>.\<close>

definition test_request :: "string \<Rightarrow> Request" where
  "test_request endpoint =
     \<lparr>Method = ''POST'', URL = ParsedURL (''https://api.moondream.ai/v1'' @ endpoint),
      Header = [''X-Moondream-Auth'' \<mapsto> [''test-api-key''],
                ''Content-Type'' \<mapsto> [''application/json'']],
      ContentLength = 2, GetBody = ''{}''\<rparr>"

section \<open>Construction: defaults and options\<close>

text \<open>
  C8. For every API key, a client constructed with no option functions has the default
  configuration: timeout 30 seconds (30 000 000 000 ns), base URL
  \<^verbatim>\<open>https://api.moondream.ai/v1\<close>, 3 retries and a retry delay of 1 second; its
  transport has the same 30 second timeout and it holds the key it was given.
\<close>

theorem NewMoondreamClient_defaults:
  "NewMoondreamClient key [] =
     \<lparr>config = \<lparr>Timeout = 30000000000, BaseURL = ''https://api.moondream.ai/v1'',
                MaxRetries = 3, RetryDelay = 1000000000\<rparr>,
      client = \<lparr>Client_Timeout = 30000000000\<rparr>,
      apiKey = key\<rparr>
   \<and> sint (Timeout (config (NewMoondreamClient key []))) = 30 * 10 ^ 9
   \<and> sint (RetryDelay (config (NewMoondreamClient key []))) = 1 * 10 ^ 9
   \<and> sint (MaxRetries (config (NewMoondreamClient key []))) = 3"
  by (simp add: NewMoondreamClient_def defaultTimeout_def defaultBaseURL_def
      defaultMaxRetries_def defaultRetryDelay_def Second_def)

text \<open>
  C10. The option \<^verbatim>\<open>WithBaseURL\<close> sets the base URL and nothing else: the timeout,
  the retry count, the retry delay, the API key and the transport (with its timeout)
  of the client are the ones it had before.
\<close>

theorem WithBaseURL_frame:
  "BaseURL (config (WithBaseURL u c)) = u
   \<and> Timeout (config (WithBaseURL u c)) = Timeout (config c)
   \<and> MaxRetries (config (WithBaseURL u c)) = MaxRetries (config c)
   \<and> RetryDelay (config (WithBaseURL u c)) = RetryDelay (config c)
   \<and> apiKey (WithBaseURL u c) = apiKey c
   \<and> client (WithBaseURL u c) = client c
   \<and> Client_Timeout (client (WithBaseURL u c)) = Client_Timeout (client c)
   \<and> WithBaseURL u c = c\<lparr>config := (config c)\<lparr>BaseURL := u\<rparr>\<rparr>"
  by (simp add: WithBaseURL_def)

section \<open>Image encoder: round trip\<close>

lemma index_of_nth: "distinct xs \<Longrightarrow> n < length xs \<Longrightarrow> index_of (xs ! n) xs = Some n"
proof (induction xs arbitrary: n)
  case Nil
  then show ?case by simp
next
  case (Cons x xs)
  then show ?case by (cases n) auto
qed

lemma index_of_None: "x \<notin> set xs \<Longrightarrow> index_of x xs = None"
  by (induction xs) auto

lemma distinct_encodeStd: "distinct encodeStd"
  by (simp add: encodeStd_def)

lemma length_encodeStd: "length encodeStd = 64"
  by (simp add: encodeStd_def)

lemma decodeMap_enc6: "decodeMap (enc6 v) = Some (v mod 64)"
  by (simp add: decodeMap_def enc6_def index_of_nth distinct_encodeStd length_encodeStd)

lemma pad_notin: "padChar \<notin> set encodeStd"
  by (simp add: encodeStd_def padChar_def)

lemma decodeMap_pad: "decodeMap padChar = None"
  by (simp add: decodeMap_def index_of_None pad_notin)

lemma enc6_not_newline: "enc6 v \<noteq> CHR 0x0A \<and> enc6 v \<noteq> CHR 0x0D"
proof -
  have "enc6 v \<in> set encodeStd"
    by (simp add: enc6_def length_encodeStd)
  moreover have "CHR 0x0A \<notin> set encodeStd" "CHR 0x0D \<notin> set encodeStd"
    by (simp_all add: encodeStd_def)
  ultimately show ?thesis by metis
qed

lemma byte_of_char: "byte (of_char c) = c"
  by (simp add: byte_def)

text \<open>The four 6-bit digits of a value give the value back.\<close>

lemma regroup:
  fixes v :: nat
  shows "(v div 262144) * 262144 + (v div 4096) mod 64 * 4096 + (v div 64) mod 64 * 64 + v mod 64 = v"
proof -
  have 1: "v div 4096 = (v div 64) div 64" and 2: "v div 262144 = ((v div 64) div 64) div 64"
    by (simp_all add: div_mult2_eq[symmetric])
  define m1 where "m1 = v div 64"
  define m2 where "m2 = m1 div 64"
  define m3 where "m3 = m2 div 64"
  have a: "v = m1 * 64 + v mod 64" by (simp add: m1_def)
  have b: "m1 = m2 * 64 + m1 mod 64" by (simp add: m2_def)
  have c: "m2 = m3 * 64 + m2 mod 64" by (simp add: m3_def)
  have "m3 * 262144 + m2 mod 64 * 4096 + m1 mod 64 * 64 + v mod 64 = v"
    using a b c by linarith
  then show ?thesis
    by (simp add: 1 2 m1_def m2_def m3_def)
qed

lemma hi_byte: "b < 256 \<Longrightarrow> c < 256 \<Longrightarrow> (a * 65536 + b * 256 + c) div 65536 = (a::nat)"
  by simp

lemma mid_byte: "c < 256 \<Longrightarrow> ((a * 65536 + b * 256 + c) div 256) mod 256 = (b::nat) mod 256"
proof -
  assume "c < 256"
  then have "(a * 65536 + b * 256 + c) div 256 = a * 256 + b" by simp
  then show ?thesis by simp
qed

lemma lo_byte: "(a * 65536 + b * 256 + c) mod 256 = (c::nat) mod 256"
proof -
  have "a * 65536 + b * 256 + c = c + (a * 256 + b) * 256" by simp
  then show ?thesis by (metis mod_mult_self1)
qed

lemma val_bound:
  "(of_char (a::char) :: nat) * 65536 + of_char (b::char) * 256 + of_char (c::char) < 16777216"
proof -
  have "(of_char a :: nat) < 256" "(of_char b :: nat) < 256" "(of_char c :: nat) < 256"
    by simp_all
  then show ?thesis by linarith
qed

lemma decodeQuantum_three:
  fixes a b c :: char
  defines "v \<equiv> (of_char a :: nat) * 65536 + of_char b * 256 + of_char c"
  shows "decodeQuantum (enc6 (v div 262144)) (enc6 (v div 4096)) (enc6 (v div 64)) (enc6 v) e tail
         = map_option (\<lambda>out. a # b # c # out) tail"
proof -
  have "v < 16777216" unfolding v_def by (rule val_bound)
  then have top: "(v div 262144) mod 64 = v div 262144" by simp
  have recomb: "(v div 262144) mod 64 * 262144 + (v div 4096) mod 64 * 4096
              + (v div 64) mod 64 * 64 + v mod 64 = v"
    using regroup[of v] by (simp only: top)
  have A: "byte (v div 65536) = a"
    unfolding v_def by (simp add: hi_byte byte_of_char)
  have B: "byte (v div 256) = b"
    unfolding v_def byte_def by (simp add: mid_byte)
  have C: "byte v = c"
    unfolding v_def byte_def by (simp add: lo_byte)
  show ?thesis
    by (simp add: decodeQuantum_def decodeMap_enc6 recomb A B C del: of_nat_add of_nat_mult)
qed

lemma decodeQuantum_two:
  fixes a b :: char
  defines "v \<equiv> (of_char a :: nat) * 65536 + of_char b * 256"
  shows "decodeQuantum (enc6 (v div 262144)) (enc6 (v div 4096)) (enc6 (v div 64)) padChar True tail
         = Some [a, b]"
proof -
  have v0: "v = of_char a * 65536 + of_char b * 256 + of_char (CHR 0x00)"
    by (simp add: v_def)
  have "v < 16777216" unfolding v0 by (rule val_bound)
  then have top: "(v div 262144) mod 64 = v div 262144" by simp
  have "v = (of_char a * 1024 + of_char b * 4) * 64" by (simp add: v_def)
  then have low: "v mod 64 = 0" by simp
  have recomb: "(v div 262144) mod 64 * 262144 + (v div 4096) mod 64 * 4096
              + (v div 64) mod 64 * 64 = v"
    using regroup[of v] by (simp only: top low add_0_right)
  have A: "byte (v div 65536) = a"
    using hi_byte[of "of_char b" 0 "of_char a"] by (simp add: v_def byte_of_char)
  have B: "byte (v div 256) = b"
    using mid_byte[of 0 "of_char a" "of_char b"] by (simp add: v_def byte_def)
  show ?thesis
    by (simp add: decodeQuantum_def decodeMap_enc6 decodeMap_pad recomb A B)
qed

lemma decodeQuantum_one:
  fixes a :: char
  defines "v \<equiv> (of_char a :: nat) * 65536"
  shows "decodeQuantum (enc6 (v div 262144)) (enc6 (v div 4096)) padChar padChar True tail
         = Some [a]"
proof -
  have v0: "v = of_char a * 65536 + of_char (CHR 0x00) * 256 + of_char (CHR 0x00)"
    by (simp add: v_def)
  have "v < 16777216" unfolding v0 by (rule val_bound)
  then have top: "(v div 262144) mod 64 = v div 262144" by simp
  have "v = (of_char a * 1024) * 64" by (simp add: v_def)
  then have low: "v mod 64 = 0" by simp
  have "v div 64 = (of_char a * 16) * 64" by (simp add: v_def)
  then have mid: "(v div 64) mod 64 = 0" by simp
  have recomb: "(v div 262144) mod 64 * 262144 + (v div 4096) mod 64 * 4096 = v"
    using regroup[of v] by (simp only: top low mid add_0_right mult_zero_left)
  have A: "byte (v div 65536) = a"
    by (simp add: v_def byte_of_char)
  show ?thesis
    by (simp add: decodeQuantum_def decodeMap_enc6 decodeMap_pad recomb A)
qed

lemma decodeQuanta_EncodeToString: "decodeQuanta (EncodeToString bs) = Some bs"
proof (induction bs rule: EncodeToString.induct)
  case (1 a b c rest)
  then show ?case
    by (simp add: Let_def decodeQuantum_three del: of_nat_add of_nat_mult)
next
  case (2 a b)
  show ?case
    using decodeQuantum_two[of a b] by (simp add: Let_def)
next
  case (3 a)
  show ?case
    using decodeQuantum_one[of a] by (simp add: Let_def)
next
  case 4
  show ?case by simp
qed

lemma EncodeToString_no_newline:
  "c \<in> set (EncodeToString bs) \<Longrightarrow> c \<noteq> CHR 0x0A \<and> c \<noteq> CHR 0x0D"
proof (induction bs rule: EncodeToString.induct)
  case (1 a b c' rest)
  then show ?case
    using enc6_not_newline by (auto simp: Let_def)
next
  case (2 a b)
  then show ?case
    using enc6_not_newline by (auto simp: Let_def padChar_def)
next
  case (3 a)
  then show ?case
    using enc6_not_newline by (auto simp: Let_def padChar_def)
next
  case 4
  then show ?case by simp
qed

lemma DecodeString_EncodeToString: "DecodeString (EncodeToString bs) = Some bs"
proof -
  have "filter (\<lambda>c. c \<noteq> CHR 0x0A \<and> c \<noteq> CHR 0x0D) (EncodeToString bs) = EncodeToString bs"
    using EncodeToString_no_newline by (intro filter_True) blast
  then show ?thesis
    by (simp add: DecodeString_def decodeQuanta_EncodeToString)
qed

text \<open>
  C5. For every path that \<^verbatim>\<open>os.ReadFile\<close> reads, \<^verbatim>\<open>encodeImage\<close> returns the 23
  characters \<^verbatim>\<open>data:image/jpeg;base64,\<close> followed by the standard base64 encoding of
  the file's bytes, and decoding what follows the prefix with
  \<^verbatim>\<open>base64.StdEncoding.DecodeString\<close> gives exactly the file's bytes.
\<close>

theorem encodeImage_roundtrip:
  assumes "ReadFile path = Inr imageData"
  shows "\<exists>s. encodeImage ReadFile c path = Inr s
           \<and> take 23 s = ''data:image/jpeg;base64,''
           \<and> drop 23 s = EncodeToString imageData
           \<and> DecodeString (drop 23 s) = Some imageData"
  using assms by (simp add: encodeImage_def DecodeString_EncodeToString)

theorem encodeImage_roundtrip_witness:
  "encodeImage (\<lambda>p. if p = ''cat.jpg'' then Inr ''test image data'' else Inl (LibError ''no such file''))
     test_client ''cat.jpg''
     = Inr ''data:image/jpeg;base64,dGVzdCBpbWFnZSBkYXRh''
   \<and> DecodeString ''dGVzdCBpbWFnZSBkYXRh'' = Some ''test image data''"
proof -
  let ?fs = "\<lambda>p. if p = ''cat.jpg'' then Inr ''test image data'' else Inl (LibError ''no such file'')"
  have rd: "?fs ''cat.jpg'' = Inr ''test image data''" by simp
  have enc: "EncodeToString ''test image data'' = ''dGVzdCBpbWFnZSBkYXRh''"
    by (simp add: enc6_def encodeStd_def)
  from encodeImage_roundtrip[of ?fs "''cat.jpg''" "''test image data''" test_client, OF rd]
  obtain s where s: "encodeImage ?fs test_client ''cat.jpg'' = Inr s"
    "drop 23 s = EncodeToString ''test image data''"
    "DecodeString (drop 23 s) = Some ''test image data''"
    by blast
  have "encodeImage ?fs test_client ''cat.jpg'' = Inr ''data:image/jpeg;base64,dGVzdCBpbWFnZSBkYXRh''"
    by (simp add: encodeImage_def enc del: EncodeToString.simps)
  with s show ?thesis by (simp add: enc del: EncodeToString.simps)
qed

section \<open>The retry loop: termination and unrolling\<close>

lemma sint_of_nat_small: "n < 2 ^ 63 \<Longrightarrow> sint (of_nat n :: 64 word) = int n"
  by (simp add: signed_of_nat signed_take_bit_int_eq_self)

lemma sint_max_int: "sint (0x7FFFFFFFFFFFFFFF :: 64 word) = 2 ^ 63 - 1"
  by simp

lemma sint_below_max:
  assumes "(m :: 64 word) \<noteq> 0x7FFFFFFFFFFFFFFF"
  shows "sint m < 2 ^ 63 - 1"
proof -
  have "sint m < 2 ^ 63"
    using sint_lt[of m] by simp
  moreover have "sint m \<noteq> 2 ^ 63 - 1"
  proof
    assume "sint m = 2 ^ 63 - 1"
    then have "sint m = sint (0x7FFFFFFFFFFFFFFF :: 64 word)" by simp
    then have "m = 0x7FFFFFFFFFFFFFFF" by (rule signed_word_eqI)
    with assms show False by contradiction
  qed
  ultimately show ?thesis by linarith
qed

lemma retry_loop_bounded:
  assumes "MaxRetries (config c) \<noteq> 0x7FFFFFFFFFFFFFFF"
    and "int n + int k = sint (MaxRetries (config c)) + 1"
  shows "retry_loop um c req env (of_nat n) lastErr res tr
         = Some (bounded_loop um c req env k n lastErr res tr)"
  using assms(2)
proof (induction k arbitrary: n env lastErr res tr)
  case 0
  have lt: "sint (MaxRetries (config c)) < 2 ^ 63 - 1"
    using assms(1) by (rule sint_below_max)
  with 0 have "n < 2 ^ 63" by simp
  then have "sint (of_nat n :: 64 word) = int n" by (rule sint_of_nat_small)
  with 0 have "\<not> (of_nat n :: 64 word) \<le>s MaxRetries (config c)"
    by (simp add: word_sle_eq)
  then show ?case
    by (subst retry_loop.simps) simp
next
  case (Suc k)
  have lt: "sint (MaxRetries (config c)) < 2 ^ 63 - 1"
    using assms(1) by (rule sint_below_max)
  with Suc.prems have "n < 2 ^ 63" by simp
  then have sn: "sint (of_nat n :: 64 word) = int n" by (rule sint_of_nat_small)
  with Suc.prems have le: "(of_nat n :: 64 word) \<le>s MaxRetries (config c)"
    by (simp add: word_sle_eq)
  have nxt: "int (Suc n) + int k = sint (MaxRetries (config c)) + 1"
    using Suc.prems by simp
  have step: "(of_nat n :: 64 word) + 1 = of_nat (Suc n)" by simp
  show ?case
    by (subst retry_loop.simps)
       (simp add: le step Suc.IH[OF nxt] split: outcome.split del: of_nat_Suc)
qed

lemma retry_loop_no_attempt:
  assumes "MaxRetries (config c) <s 0"
  shows "retry_loop um c req env 0 lastErr res tr
         = Some (Some (Errorf ''max retries exceeded'' lastErr), res, tr)"
proof -
  from assms have "\<not> 0 \<le>s MaxRetries (config c)"
    by (simp add: word_sle_eq word_sless_alt)
  then show ?thesis
    by (subst retry_loop.simps) simp
qed

lemma always_continues_shift:
  "always_continues um c req env \<Longrightarrow> always_continues um c req (\<lambda>i. env (Suc i))"
  unfolding always_continues_def by blast

lemma retry_loop_diverges:
  assumes M: "MaxRetries (config c) = 0x7FFFFFFFFFFFFFFF"
    and E: "always_continues um c req env"
  shows "retry_loop um c req env attempt lastErr res tr = None"
proof (rule ccontr)
  assume "retry_loop um c req env attempt lastErr res tr \<noteq> None"
  then obtain y where y: "retry_loop um c req env attempt lastErr res tr = Some y" by auto
  have "um = um \<and> c = c \<and> req = req \<and> always_continues um c req env \<longrightarrow> False"
  proof (rule retry_loop.raw_induct[where P = "\<lambda>um' c' req' env' att' l' r' t' y'.
           um' = um \<and> c' = c \<and> req' = req \<and> always_continues um c req env' \<longrightarrow> False", OF _ y])
    fix f um1 c1 req1 env1 att1 l1 r1 t1 y1
    assume IH: "\<And>um' c' req' env' att' l' r' t' y'. f um' c' req' env' att' l' r' t' = Some y'
                  \<Longrightarrow> um' = um \<and> c' = c \<and> req' = req \<and> always_continues um c req env' \<longrightarrow> False"
      and body: "(if att1 \<le>s MaxRetries (config c1)
           then case attempt_body um1 c1 req1 (env1 0) att1 r1 of
                Return err result' evs \<Rightarrow> Some (err, result', t1 @ evs)
              | Continue err result' evs \<Rightarrow>
                  f um1 c1 req1 (\<lambda>i. env1 (Suc i)) (att1 + 1) (Some err) result' (t1 @ evs)
           else Some (Some (Errorf ''max retries exceeded'' l1), r1, t1)) = Some y1"
    show "um1 = um \<and> c1 = c \<and> req1 = req \<and> always_continues um c req env1 \<longrightarrow> False"
    proof
      assume a: "um1 = um \<and> c1 = c \<and> req1 = req \<and> always_continues um c req env1"
      have le: "att1 \<le>s MaxRetries (config c)"
        using sint_lt[of att1] by (simp add: M word_sle_eq)
      from a obtain e r' evs where ab: "attempt_body um c req (env1 0) att1 r1 = Continue e r' evs"
        unfolding always_continues_def by blast
      from body have "f um c req (\<lambda>i. env1 (Suc i)) (att1 + 1) (Some e) r' (t1 @ evs) = Some y1"
        using a by (simp add: le ab)
      from IH[OF this] a always_continues_shift show False by blast
    qed
  qed
  with E show False by simp
qed

lemma retry_loop_passes:
  assumes "passes um c req env k n l r t = Some (l', r', t')"
    and "int n + int k \<le> sint (MaxRetries (config c)) + 1"
  shows "retry_loop um c req env (of_nat n) l r t
         = retry_loop um c req (\<lambda>i. env (i + k)) (of_nat (n + k)) l' r' t'"
  using assms
proof (induction k arbitrary: n env l r t)
  case 0
  then show ?case by simp
next
  case (Suc k)
  have "sint (MaxRetries (config c)) < 2 ^ 63"
    using sint_lt[of "MaxRetries (config c)"] by simp
  with Suc.prems(2) have "n < 2 ^ 63" by simp
  then have sn: "sint (of_nat n :: 64 word) = int n" by (rule sint_of_nat_small)
  with Suc.prems(2) have le: "(of_nat n :: 64 word) \<le>s MaxRetries (config c)"
    by (simp add: word_sle_eq)
  from Suc.prems(1) obtain e r1 evs where
    ab: "attempt_body um c req (env 0) (of_nat n) r = Continue e r1 evs"
    and rest: "passes um c req (\<lambda>i. env (Suc i)) k (Suc n) (Some e) r1 (t @ evs) = Some (l', r', t')"
    by (auto split: outcome.splits)
  have nxt: "int (Suc n) + int k \<le> sint (MaxRetries (config c)) + 1"
    using Suc.prems(2) by simp
  have step: "(of_nat n :: 64 word) + 1 = of_nat (Suc n)" by simp
  have "retry_loop um c req env (of_nat n) l r t
        = retry_loop um c req (\<lambda>i. env (Suc i)) (of_nat (Suc n)) (Some e) r1 (t @ evs)"
    by (subst retry_loop.simps) (simp add: le ab step del: of_nat_Suc)
  also have "\<dots> = retry_loop um c req (\<lambda>i. env (Suc (i + k))) (of_nat (Suc n + k)) l' r' t'"
    using Suc.IH[OF rest nxt] .
  finally show ?case by simp
qed

lemma attempt_body_sends:
  "attempt_body um c req w att r = Continue e r' evs \<Longrightarrow> sends evs = [req]"
  "attempt_body um c req w att r = Return e' r' evs \<Longrightarrow> sends evs = [req] \<or> sends evs = []"
  by (auto simp: attempt_body_def Let_def split: if_splits select_outcome.splits sum.splits prod.splits option.splits)

lemma sends_append: "sends (xs @ ys) = sends xs @ sends ys"
  by (induction xs rule: sends.induct) auto

lemma waits_append: "waits (xs @ ys) = waits xs @ waits ys"
  by (induction xs rule: waits.induct) auto

lemma passes_sends:
  "passes um c req env k n l r t = Some (l', r', t') \<Longrightarrow> sends t' = sends t @ replicate k req"
proof (induction k arbitrary: n env l r t)
  case 0
  then show ?case by simp
next
  case (Suc k)
  from Suc.prems obtain e r1 evs where
    ab: "attempt_body um c req (env 0) (of_nat n) r = Continue e r1 evs"
    and rest: "passes um c req (\<lambda>i. env (Suc i)) k (Suc n) (Some e) r1 (t @ evs) = Some (l', r', t')"
    by (auto split: outcome.splits)
  from Suc.IH[OF rest] attempt_body_sends(1)[OF ab] show ?case
    by (simp add: sends_append replicate_app_Cons_same)
qed

lemma sless_of_nat: "n < 2 ^ 63 \<Longrightarrow> (0 <s (of_nat n :: 64 word)) = (0 < n)"
  by (simp add: word_sless_alt sint_of_nat_small)

lemma sendRequest_at_pass:
  assumes "newRequest marshal url_Parse c endpoint payload = Inr req"
    and "passes um c req env n 0 None result [] = Some (l, r, t)"
    and "int n \<le> sint (MaxRetries (config c))"
  shows "sendRequest marshal url_Parse um c env endpoint payload result
         = (case attempt_body um c req (env n) (of_nat n) r of
              Return e r' evs \<Rightarrow> Some (e, r', t @ evs)
            | Continue e r' evs \<Rightarrow>
                retry_loop um c req (\<lambda>i. env (i + Suc n)) (of_nat (Suc n)) (Some e) r' (t @ evs))"
proof -
  have "sint (MaxRetries (config c)) < 2 ^ 63"
    using sint_lt[of "MaxRetries (config c)"] by simp
  with assms(3) have "n < 2 ^ 63" by simp
  then have "sint (of_nat n :: 64 word) = int n" by (rule sint_of_nat_small)
  with assms(3) have le: "(of_nat n :: 64 word) \<le>s MaxRetries (config c)"
    by (simp add: word_sle_eq)
  have step: "(of_nat n :: 64 word) + 1 = of_nat (Suc n)" by simp
  have "sendRequest marshal url_Parse um c env endpoint payload result
        = retry_loop um c req env (of_nat 0) None result []"
    by (simp add: sendRequest_def assms(1))
  also have "\<dots> = retry_loop um c req (\<lambda>i. env (i + n)) (of_nat (0 + n)) l r t"
    using assms(2,3) by (intro retry_loop_passes) simp_all
  also have "\<dots> = (case attempt_body um c req (env n) (of_nat n) r of
              Return e r' evs \<Rightarrow> Some (e, r', t @ evs)
            | Continue e r' evs \<Rightarrow>
                retry_loop um c req (\<lambda>i. env (i + Suc n)) (of_nat (Suc n)) (Some e) r' (t @ evs))"
    by (subst retry_loop.simps) (simp add: le step del: of_nat_Suc split: outcome.split)
  finally show ?thesis .
qed

lemma attempt_body_api_error:
  assumes "n < 2 ^ 63"
    and "n = 0 \<or> select_result w = TimerFired"
    and "do_result w = Inr resp" and "resp_Body resp = Inr body"
    and "400 \<le> resp_StatusCode resp"
  shows "attempt_body um c req w (of_nat n) r
         = (if resp_StatusCode resp < 500
            then Return (Some (API (responseError (resp_StatusCode resp) body))) r
                   ((if 0 < n then [After (RetryDelay (config c) * of_nat n)] else []) @ [Do req])
            else Continue (API (responseError (resp_StatusCode resp) body)) r
                   ((if 0 < n then [After (RetryDelay (config c) * of_nat n)] else []) @ [Do req]))"
  using assms by (auto simp: attempt_body_def Let_def sless_of_nat)

lemma attempt_body_cancelled:
  assumes "n < 2 ^ 63" and "0 < n" and "select_result w = CtxDone e"
  shows "attempt_body um c req w (of_nat n) r
         = Return (Some (CtxError e)) r [After (RetryDelay (config c) * of_nat n)]"
  using assms by (simp add: attempt_body_def Let_def sless_of_nat)

lemma attempt_body_decode_error:
  assumes "n < 2 ^ 63"
    and "n = 0 \<or> select_result w = TimerFired"
    and "do_result w = Inr resp" and "resp_Body resp = Inr body"
    and "resp_StatusCode resp < 400"
    and "um body r = (Some err, r')"
  shows "attempt_body um c req w (of_nat n) r
         = Continue (Errorf ''failed to unmarshal response'' (Some err)) r'
             ((if 0 < n then [After (RetryDelay (config c) * of_nat n)] else []) @ [Do req])"
  using assms by (auto simp: attempt_body_def Let_def sless_of_nat)

lemma retry_loop_exhausted:
  assumes "MaxRetries (config c) \<noteq> 0x7FFFFFFFFFFFFFFF"
    and "int n = sint (MaxRetries (config c)) + 1"
  shows "retry_loop um c req env (of_nat n) lastErr res tr
         = Some (Some (Errorf ''max retries exceeded'' lastErr), res, tr)"
  using retry_loop_bounded[OF assms(1), where n=n and k=0] assms(2) by simp

lemma unat_nonneg: "0 \<le>s (m :: 64 word) \<Longrightarrow> int (unat m) = sint m"
proof -
  assume "0 \<le>s m"
  then have "0 \<le> sint m" by (simp add: word_sle_eq)
  moreover have "sint m < 2 ^ 64"
    using sint_lt[of m] by simp
  ultimately have tb: "take_bit 64 (sint m) = sint m"
    by (simp add: take_bit_int_eq_self)
  have "uint m = take_bit LENGTH(64) (sint m)"
    by (rule uint_sint)
  also have "\<dots> = take_bit 64 (sint m)"
    by (simp only: len_bit0 len_num1 mult_2 one_add_one numeral_Bit0[symmetric])
  finally have "uint m = sint m"
    using tb by (simp only:)
  moreover have "uint m = int (unat m)"
    by (rule uint_nat)
  ultimately show ?thesis by (simp only:)
qed

lemma delay_exact:
  assumes "k < 2 ^ 63" and "- (2 ^ 63) \<le> sint d * int k" and "sint d * int k < 2 ^ 63"
  shows "sint (d * of_nat k :: 64 word) = sint d * int k"
proof -
  have "sint (d * of_nat k :: 64 word) = signed_take_bit 63 (sint d * sint (of_nat k :: 64 word))"
    by (simp add: sint_word_ariths)
  also have "\<dots> = signed_take_bit 63 (sint d * int k)"
    by (simp add: sint_of_nat_small[OF assms(1)])
  also have "\<dots> = sint d * int k"
    using assms(2,3) by (simp add: signed_take_bit_int_eq_self)
  finally show ?thesis .
qed

lemma bounded_loop_all_5xx:
  assumes "\<forall>i<k. select_result (env i) = TimerFired
             \<and> do_result (env i) = Inr \<lparr>resp_StatusCode = status i, resp_Body = Inr (body i)\<rparr>
             \<and> 500 \<le> status i"
    and "n + k \<le> 2 ^ 63"
  shows "bounded_loop um c req env k n lastErr res tr
         = (Some (Errorf ''max retries exceeded''
                   (if k = 0 then lastErr
                    else Some (API (responseError (status (k - 1)) (body (k - 1)))))),
            res, tr @ backoff_trace (RetryDelay (config c)) req n k)"
  using assms
proof (induction k arbitrary: n env status body lastErr tr)
  case 0
  show ?case by simp
next
  case (Suc k)
  from Suc.prems(2) have n: "n < 2 ^ 63" by simp
  from Suc.prems(1) have h0: "select_result (env 0) = TimerFired"
    "do_result (env 0) = Inr \<lparr>resp_StatusCode = status 0, resp_Body = Inr (body 0)\<rparr>"
    "500 \<le> status 0"
    by auto
  have ab: "attempt_body um c req (env 0) (of_nat n) res
            = Continue (API (responseError (status 0) (body 0))) res
                ((if 0 < n then [After (RetryDelay (config c) * of_nat n)] else []) @ [Do req])"
    using attempt_body_api_error[OF n _ h0(2), where body="body 0" and um=um and c=c and req=req and r=res]
      h0(1,3) by simp
  have rest: "\<forall>i<k. select_result (env (Suc i)) = TimerFired
             \<and> do_result (env (Suc i)) = Inr \<lparr>resp_StatusCode = status (Suc i), resp_Body = Inr (body (Suc i))\<rparr>
             \<and> 500 \<le> status (Suc i)"
    using Suc.prems(1) by auto
  have b: "Suc n + k \<le> 2 ^ 63" using Suc.prems(2) by simp
  note IH = Suc.IH[where env="\<lambda>i. env (Suc i)" and status="\<lambda>i. status (Suc i)"
      and body="\<lambda>i. body (Suc i)", OF rest b]
  let ?e = "API (responseError (status 0) (body 0))"
  let ?t = "tr @ (if 0 < n then [After (RetryDelay (config c) * of_nat n)] else []) @ [Do req]"
  have "bounded_loop um c req env (Suc k) n lastErr res tr
        = bounded_loop um c req (\<lambda>i. env (Suc i)) k (Suc n) (Some ?e) res ?t"
    by (simp add: ab del: of_nat_Suc)
  also have "\<dots> = (Some (Errorf ''max retries exceeded''
                   (if k = 0 then Some ?e
                    else Some (API (responseError (status (Suc (k - 1))) (body (Suc (k - 1))))))),
            res, ?t @ backoff_trace (RetryDelay (config c)) req (Suc n) k)"
    by (rule IH)
  also have "\<dots> = (Some (Errorf ''max retries exceeded''
                   (Some (API (responseError (status k) (body k))))),
            res, tr @ backoff_trace (RetryDelay (config c)) req n (Suc k))"
    by (cases k) (simp_all del: of_nat_Suc)
  finally show ?case by simp
qed

lemma sends_backoff_trace: "sends (backoff_trace d req n k) = replicate k req"
  by (induction k arbitrary: n) (simp_all add: sends_append)

lemma waits_backoff_trace_pos:
  "0 < n \<Longrightarrow> waits (backoff_trace d req n k) = map (\<lambda>j. d * of_nat j) [n..<n + k]"
proof (induction k arbitrary: n)
  case 0
  show ?case by simp
next
  case (Suc k)
  have "[n..<n + Suc k] = n # [Suc n..<Suc n + k]"
    by (simp add: upt_conv_Cons)
  with Suc.prems Suc.IH[of "Suc n"] show ?case
    by (simp add: waits_append del: of_nat_Suc upt_Suc)
qed

lemma waits_backoff_trace:
  "waits (backoff_trace d req 0 (Suc k)) = map (\<lambda>j. d * of_nat j) [1..<Suc k]"
  using waits_backoff_trace_pos[of "Suc 0" d req k] by (simp del: of_nat_Suc upt_Suc)

section \<open>The error of a response\<close>

lemma unmarshal_invalid_key:
  "json_Unmarshal_APIError ''{\"status_code\":401,\"message\":\"invalid key\"}''
   = Inr \<lparr>StatusCode = 401, Message = ''invalid key''\<rparr>"
  by (simp add: json_Unmarshal_APIError_def parseJSON_def isSpace_def isDigit_def byteval_def
      scanNumber_def scanInt_def scanFrac_def scanExp_def scanDigits_def isPrefixAt_def
      parseStep_def beginValue_def closeFrame_def maxNestingDepth_def decodeAPIError_def findField_def
      fieldNames_def storeField_def ParseInt_def saveError_def toUpperASCII_def)

lemma responseError_cases:
  "(case json_Unmarshal_APIError body of
      Inr a \<Rightarrow> responseError status body = a
    | Inl err \<Rightarrow> responseError status body = \<lparr>StatusCode = status, Message = body\<rparr>)"
  by (simp add: responseError_def split: sum.split)

lemma responseError_syntax_error:
  "parseJSON body = None \<Longrightarrow> responseError status body = \<lparr>StatusCode = status, Message = body\<rparr>"
  by (simp add: responseError_def json_Unmarshal_APIError_def)

lemma storeField_Message_StatusCode:
  "StatusCode (fst (storeField F_Message v a)) = StatusCode a"
  by (simp add: storeField_def split: json.split)

lemma decodeMembers_StatusCode:
  assumes "\<not> list_ex (\<lambda>(k, x). findField k = Some F_StatusCode) ms"
  shows "StatusCode (fst (decodeMembers ms (a, saved))) = StatusCode a"
  using assms
proof (induction ms arbitrary: a saved)
  case Nil
  show ?case by simp
next
  case (Cons kv ms)
  obtain k v where kv: "kv = (k, v)" by (cases kv)
  from Cons.prems kv have no: "findField k \<noteq> Some F_StatusCode"
    and rest: "\<not> list_ex (\<lambda>(k, x). findField k = Some F_StatusCode) ms"
    by simp_all
  show ?case
  proof (cases "findField k")
    case None
    with Cons.IH[OF rest] kv show ?thesis by simp
  next
    case (Some f)
    with no have f: "f = F_Message" by (cases f) simp_all
    obtain a' e where st: "storeField F_Message v a = (a', e)"
      by (cases "storeField F_Message v a")
    have "StatusCode a' = StatusCode a"
      using storeField_Message_StatusCode[of v a] st by simp
    with Cons.IH[OF rest, of a' "saveError saved e"] kv Some f st show ?thesis
      by simp
  qed
qed

lemma unmarshal_without_status_code:
  assumes "json_Unmarshal_APIError body = Inr apiErr"
    and "parseJSON body = Some v" and "\<not> names_status_code v"
  shows "StatusCode apiErr = 0"
proof -
  from assms(1,2) obtain e where d: "decodeAPIError v = (apiErr, e)"
    by (auto simp: json_Unmarshal_APIError_def split: prod.splits option.splits)
  show ?thesis
  proof (cases v)
    case (JObject ms)
    with assms(3) have "\<not> list_ex (\<lambda>(k, x). findField k = Some F_StatusCode) ms"
      by (simp add: names_status_code_def)
    from decodeMembers_StatusCode[OF this, of "\<lparr>StatusCode = 0, Message = []\<rparr>" None] d JObject
    show ?thesis by (simp add: decodeAPIError_def)
  qed (use d in \<open>auto simp: decodeAPIError_def\<close>)
qed

section \<open>The example worlds\<close>

lemma test_client_config:
  "config test_client = \<lparr>Timeout = 30000000000, BaseURL = ''https://api.moondream.ai/v1'',
                            MaxRetries = 3, RetryDelay = 1000000000\<rparr>"
  "apiKey test_client = ''test-api-key''"
  by (simp_all add: test_client_def NewMoondreamClient_def defaultTimeout_def defaultBaseURL_def
      defaultMaxRetries_def defaultRetryDelay_def Second_def)

lemma test_newRequest:
  "newRequest marshal_unit url_ok test_client endpoint () = Inr (test_request endpoint)"
  by (simp add: newRequest_def marshal_unit_def url_ok_def NewRequestWithContext_def
      Header_Set_def test_request_def test_client_config)

lemma not_json: "json_Unmarshal_APIError ''not found'' = Inl SyntaxError"
  by (simp add: json_Unmarshal_APIError_def parseJSON_def isSpace_def isDigit_def byteval_def
      isPrefixAt_def)

section \<open>The request\<close>

text \<open>
  C1, as stated, names the header \<^verbatim>\<open>X-Api-Auth\<close>. The request of the test client
  carries no header of that name: the key is sent as \<^verbatim>\<open>X-Moondream-Auth\<close>, the name
  the package's tests read.
\<close>

theorem sendRequest_sets_no_X_Api_Auth:
  "sendRequest marshal_unit url_ok unmarshal_caption test_client
     (replies \<lparr>resp_StatusCode = 200, resp_Body = Inr ''{\"caption\":\"a cat on a mat\"}''\<rparr>)
     ''/caption'' () []
   = Some (None, ''a cat on a mat'', [Do (test_request ''/caption'')])
   \<and> Header (test_request ''/caption'') ''X-Api-Auth'' = None
   \<and> Header_Get (test_request ''/caption'') ''X-Api-Auth'' = []
   \<and> apiKey test_client = ''test-api-key''"
proof -
  have le: "(0 :: go_int) \<le>s MaxRetries (config test_client)"
    by (simp add: test_client_config word_sle_eq)
  have run: "sendRequest marshal_unit url_ok unmarshal_caption test_client
     (replies \<lparr>resp_StatusCode = 200, resp_Body = Inr ''{\"caption\":\"a cat on a mat\"}''\<rparr>)
     ''/caption'' () []
   = Some (None, ''a cat on a mat'', [Do (test_request ''/caption'')])"
    unfolding sendRequest_def test_newRequest
    by (subst retry_loop.simps)
       (simp add: le attempt_body_def replies_def unmarshal_caption_def word_sless_alt)
  show ?thesis
    by (simp add: run test_request_def Header_Get_def test_client_config)
qed

text \<open>
  C1, amended. Whenever the payload serialises and the URL parses, the executor builds,
  and enters its retry loop with, an HTTP POST to the base URL followed by the
  endpoint, carrying the header \<^verbatim>\<open>X-Moondream-Auth\<close> set to the client's API key and
  the header \<^verbatim>\<open>Content-Type\<close> set to \<^verbatim>\<open>application/json\<close>.
\<close>

theorem sendRequest_builds_post:
  assumes "marshal payload = Inr jsonPayload"
    and "url_Parse (BaseURL (config c) @ endpoint) = None"
  shows "\<exists>req. newRequest marshal url_Parse c endpoint payload = Inr req
           \<and> sendRequest marshal url_Parse unmarshal c env endpoint payload result
               = retry_loop unmarshal c req env 0 None result []
           \<and> Method req = ''POST''
           \<and> URL req = ParsedURL (BaseURL (config c) @ endpoint)
           \<and> Header req = [''X-Moondream-Auth'' \<mapsto> [apiKey c],
                            ''Content-Type'' \<mapsto> [''application/json'']]
           \<and> Header_Get req ''X-Moondream-Auth'' = apiKey c
           \<and> Header_Get req ''Content-Type'' = ''application/json''"
proof -
  let ?req = "\<lparr>Method = ''POST'', URL = ParsedURL (BaseURL (config c) @ endpoint),
               Header = [''X-Moondream-Auth'' \<mapsto> [apiKey c],
                         ''Content-Type'' \<mapsto> [''application/json'']],
               ContentLength = int (length jsonPayload), GetBody = jsonPayload\<rparr>"
  have nr: "newRequest marshal url_Parse c endpoint payload = Inr ?req"
    using assms by (simp add: newRequest_def NewRequestWithContext_def Header_Set_def)
  have sr: "sendRequest marshal url_Parse unmarshal c env endpoint payload result
            = retry_loop unmarshal c ?req env 0 None result []"
    by (simp add: sendRequest_def nr)
  show ?thesis
    using nr sr by (intro exI[of _ ?req]) (simp add: Header_Get_def)
qed

theorem sendRequest_builds_post_witness:
  "newRequest marshal_unit url_ok test_client ''/caption'' ()
     = Inr \<lparr>Method = ''POST'', URL = ParsedURL ''https://api.moondream.ai/v1/caption'',
            Header = [''X-Moondream-Auth'' \<mapsto> [''test-api-key''],
                      ''Content-Type'' \<mapsto> [''application/json'']],
            ContentLength = 2, GetBody = ''{}''\<rparr>
   \<and> Header_Get (test_request ''/caption'') ''X-Moondream-Auth'' = ''test-api-key''
   \<and> Header_Get (test_request ''/caption'') ''Content-Type'' = ''application/json''"
proof -
  have m: "marshal_unit () = Inr ''{}''"
    by (simp add: marshal_unit_def)
  have u: "url_ok (BaseURL (config test_client) @ ''/caption'') = None"
    by (simp add: url_ok_def)
  from sendRequest_builds_post[where marshal=marshal_unit and payload="()" and url_Parse=url_ok
      and c=test_client and endpoint="''/caption''" and unmarshal=unmarshal_caption
      and env="replies \<lparr>resp_StatusCode = 200, resp_Body = Inr []\<rparr>" and result="[]", OF m u]
  obtain req where r: "newRequest marshal_unit url_ok test_client ''/caption'' () = Inr req"
    "Method req = ''POST''"
    "URL req = ParsedURL (BaseURL (config test_client) @ ''/caption'')"
    "Header req = [''X-Moondream-Auth'' \<mapsto> [apiKey test_client],
                   ''Content-Type'' \<mapsto> [''application/json'']]"
    "Header_Get req ''X-Moondream-Auth'' = apiKey test_client"
    "Header_Get req ''Content-Type'' = ''application/json''"
    by blast
  from r(1) have "req = test_request ''/caption''"
    by (simp add: test_newRequest)
  with r show ?thesis
    by (simp add: test_client_config test_request_def)
qed

section \<open>Retries exhausted\<close>

text \<open>
  C2, as stated, covers every retry count from 0 up. With the largest \<^verbatim>\<open>int\<close> as
  \<^verbatim>\<open>MaxRetries\<close> the loop condition \<^verbatim>\<open>attempt <= MaxRetries\<close> never fails, the
  counter wraps, and against a server that answers 500 every time the invocation does
  not return.
\<close>

theorem sendRequest_max_int_never_returns:
  "sendRequest marshal_unit url_ok unmarshal_caption
     (test_client\<lparr>config := (config test_client)\<lparr>MaxRetries := 0x7FFFFFFFFFFFFFFF\<rparr>\<rparr>)
     (replies \<lparr>resp_StatusCode = 500, resp_Body = Inr ''not found''\<rparr>) ''/caption'' () []
   = None"
proof -
  let ?c = "test_client\<lparr>config := (config test_client)\<lparr>MaxRetries := 0x7FFFFFFFFFFFFFFF\<rparr>\<rparr>"
  let ?resp = "\<lparr>resp_StatusCode = 500, resp_Body = Inr ''not found''\<rparr>"
  have r: "newRequest marshal_unit url_ok ?c ''/caption'' () = Inr (test_request ''/caption'')"
    by (simp add: newRequest_def marshal_unit_def url_ok_def NewRequestWithContext_def
        Header_Set_def test_request_def test_client_config)
  have m: "MaxRetries (config ?c) = 0x7FFFFFFFFFFFFFFF"
    by simp
  have a: "always_continues unmarshal_caption ?c (test_request ''/caption'') (replies ?resp)"
    unfolding always_continues_def
    by (simp add: attempt_body_def replies_def Let_def split: select_outcome.split)
  show ?thesis
    unfolding sendRequest_def r
    using retry_loop_diverges[OF m a] by simp
qed

text \<open>
  C2, amended. Let \<^verbatim>\<open>MaxRetries\<close> be \<open>m\<close>, at least 0 and below the largest
  \<^verbatim>\<open>int\<close>, and let every attempt receive a response with status 500 or more whose
  body is read, no wait being cancelled. Then the invocation makes exactly \<open>m + 1\<close>
  attempts; before attempt \<open>k\<close>, for \<open>k\<close> from 1 to \<open>m\<close>, it waits
  \<^verbatim>\<open>RetryDelay * k\<close>, the product taken in the 64 bits of \<^verbatim>\<open>time.Duration\<close> (it is
  the exact product whenever that fits); and it returns \<^verbatim>\<open>max retries exceeded\<close>
  wrapping the \<^verbatim>\<open>APIError\<close> of the last response.
\<close>

theorem sendRequest_retries_exhausted:
  assumes "newRequest marshal url_Parse c endpoint payload = Inr req"
    and "0 \<le>s MaxRetries (config c)" and "MaxRetries (config c) \<noteq> 0x7FFFFFFFFFFFFFFF"
    and "m = unat (MaxRetries (config c))"
    and "\<forall>i\<le>m. select_result (env i) = TimerFired
           \<and> do_result (env i) = Inr \<lparr>resp_StatusCode = status i, resp_Body = Inr (body i)\<rparr>
           \<and> 500 \<le> status i"
  shows "\<exists>tr. sendRequest marshal url_Parse unmarshal c env endpoint payload result
                = Some (Some (Errorf ''max retries exceeded''
                               (Some (API (responseError (status m) (body m))))), result, tr)
           \<and> tr = backoff_trace (RetryDelay (config c)) req 0 (m + 1)
           \<and> sends tr = replicate (m + 1) req
           \<and> waits tr = map (\<lambda>k. RetryDelay (config c) * of_nat k) [1..<m + 1]
           \<and> (\<forall>k. 1 \<le> k \<and> k \<le> m
                  \<and> - (2 ^ 63) \<le> sint (RetryDelay (config c)) * int k
                  \<and> sint (RetryDelay (config c)) * int k < 2 ^ 63
                \<longrightarrow> sint (RetryDelay (config c) * of_nat k) = sint (RetryDelay (config c)) * int k)"
proof -
  have m: "int m = sint (MaxRetries (config c))"
    using unat_nonneg[OF assms(2)] assms(4) by simp
  have "sint (MaxRetries (config c)) < 2 ^ 63"
    using sint_lt[of "MaxRetries (config c)"] by simp
  with m have mb: "m < 2 ^ 63" by simp
  have all: "\<forall>i<m + 1. select_result (env i) = TimerFired
           \<and> do_result (env i) = Inr \<lparr>resp_StatusCode = status i, resp_Body = Inr (body i)\<rparr>
           \<and> 500 \<le> status i"
    using assms(5) by simp
  have "sendRequest marshal url_Parse unmarshal c env endpoint payload result
        = retry_loop unmarshal c req env (of_nat 0) None result []"
    by (simp add: sendRequest_def assms(1))
  also have "\<dots> = Some (bounded_loop unmarshal c req env (m + 1) 0 None result [])"
    using m by (intro retry_loop_bounded[OF assms(3)]) simp
  also have "bounded_loop unmarshal c req env (m + 1) 0 None result []
        = (Some (Errorf ''max retries exceeded''
                  (Some (API (responseError (status m) (body m))))), result,
           [] @ backoff_trace (RetryDelay (config c)) req 0 (m + 1))"
    using bounded_loop_all_5xx[OF all, where n=0 and um=unmarshal and c=c and req=req
        and lastErr=None and res=result and tr="[]"] mb
    by simp
  finally have run: "sendRequest marshal url_Parse unmarshal c env endpoint payload result
        = Some (Some (Errorf ''max retries exceeded''
                  (Some (API (responseError (status m) (body m))))), result,
                backoff_trace (RetryDelay (config c)) req 0 (m + 1))"
    by simp
  have w: "waits (backoff_trace (RetryDelay (config c)) req 0 (m + 1))
           = map (\<lambda>k. RetryDelay (config c) * of_nat k) [1..<m + 1]"
    using waits_backoff_trace[of "RetryDelay (config c)" req m] by simp
  have d: "sint (RetryDelay (config c) * of_nat k) = sint (RetryDelay (config c)) * int k"
    if "k \<le> m" "- (2 ^ 63) \<le> sint (RetryDelay (config c)) * int k"
      "sint (RetryDelay (config c)) * int k < 2 ^ 63" for k
    using that mb by (intro delay_exact) simp_all
  show ?thesis
    using run w d by (simp add: sends_backoff_trace del: backoff_trace.simps)
qed

theorem sendRequest_retries_exhausted_witness:
  "sendRequest marshal_unit url_ok unmarshal_caption test_client
     (replies \<lparr>resp_StatusCode = 500, resp_Body = Inr ''not found''\<rparr>) ''/caption'' () []
   = Some (Some (Errorf ''max retries exceeded''
                  (Some (API \<lparr>StatusCode = 500, Message = ''not found''\<rparr>))),
           [],
           [Do (test_request ''/caption''), After 1000000000,
            Do (test_request ''/caption''), After 2000000000,
            Do (test_request ''/caption''), After 3000000000,
            Do (test_request ''/caption'')])"
proof -
  let ?resp = "\<lparr>resp_StatusCode = 500, resp_Body = Inr ''not found''\<rparr>"
  have h: "0 \<le>s MaxRetries (config test_client)"
    "MaxRetries (config test_client) \<noteq> 0x7FFFFFFFFFFFFFFF"
    "3 = unat (MaxRetries (config test_client))"
    by (simp_all add: test_client_config word_sle_eq)
  have a: "\<forall>i\<le>3. select_result (replies ?resp i) = TimerFired
           \<and> do_result (replies ?resp i) = Inr \<lparr>resp_StatusCode = 500, resp_Body = Inr ''not found''\<rparr>
           \<and> (500::int) \<le> 500"
    by (simp add: replies_def)
  have e: "responseError 500 ''not found'' = \<lparr>StatusCode = 500, Message = ''not found''\<rparr>"
    by (simp add: responseError_def not_json)
  have t: "backoff_trace 1000000000 (test_request ''/caption'') 0 (Suc (Suc (Suc (Suc 0))))
           = [Do (test_request ''/caption''), After 1000000000,
              Do (test_request ''/caption''), After 2000000000,
              Do (test_request ''/caption''), After 3000000000,
              Do (test_request ''/caption'')]"
    by simp
  have four: "(3::nat) + 1 = Suc (Suc (Suc (Suc 0)))" by simp
  from sendRequest_retries_exhausted[OF test_newRequest h a,
      where unmarshal=unmarshal_caption and result="[]"]
  obtain tr where
    "sendRequest marshal_unit url_ok unmarshal_caption test_client (replies ?resp) ''/caption'' () []
       = Some (Some (Errorf ''max retries exceeded'' (Some (API (responseError 500 ''not found'')))),
               [], tr)"
    "tr = backoff_trace (RetryDelay (config test_client)) (test_request ''/caption'') 0 (3 + 1)"
    by blast
  then show ?thesis
    by (simp only: e four t test_client_config ClientConfig.simps)
qed

section \<open>Client errors, cancellation and malformed bodies\<close>

text \<open>
  C3, as stated, covers every response with a status from 400 to 499. The status is
  tested only after the body has been read: a 404 response whose body cannot be read
  is a failed read, which is retried. Against a server that answers so every time the
  test client makes four attempts with three waits and returns no \<^verbatim>\<open>APIError\<close>.
\<close>

theorem sendRequest_client_error_unread_body_retried:
  "sendRequest marshal_unit url_ok unmarshal_caption test_client
     (replies \<lparr>resp_StatusCode = 404, resp_Body = Inl (LibError ''unexpected EOF'')\<rparr>)
     ''/query'' () []
   = Some (Some (Errorf ''max retries exceeded''
                  (Some (Errorf ''failed to read response body''
                          (Some (LibError ''unexpected EOF''))))),
           [],
           [Do (test_request ''/query''), After 1000000000,
            Do (test_request ''/query''), After 2000000000,
            Do (test_request ''/query''), After 3000000000,
            Do (test_request ''/query'')])"
proof -
  let ?env = "replies \<lparr>resp_StatusCode = 404, resp_Body = Inl (LibError ''unexpected EOF'')\<rparr>"
  have m: "MaxRetries (config test_client) \<noteq> 0x7FFFFFFFFFFFFFFF"
    "int 0 + int (Suc (Suc (Suc (Suc 0)))) = sint (MaxRetries (config test_client)) + 1"
    by (simp_all add: test_client_config)
  have "sendRequest marshal_unit url_ok unmarshal_caption test_client ?env ''/query'' () []
        = retry_loop unmarshal_caption test_client (test_request ''/query'') ?env (of_nat 0) None [] []"
    by (simp add: sendRequest_def test_newRequest)
  also have "\<dots> = Some (bounded_loop unmarshal_caption test_client (test_request ''/query'') ?env
                        (Suc (Suc (Suc (Suc 0)))) 0 None [] [])"
    using m by (rule retry_loop_bounded)
  finally show ?thesis
    by (simp add: attempt_body_def replies_def word_sless_alt test_client_config)
qed

text \<open>
  C3, amended. Let pass \<open>n\<close> of an invocation be reached (the \<open>n\<close> passes before it
  all ended in \<^verbatim>\<open>continue\<close>), its wait, if any, elapse, and its attempt receive a
  response with status 400 or more whose body is read. If the status is below 500, the
  invocation returns the \<^verbatim>\<open>APIError\<close> of that response at once: the effects are those
  of the earlier passes, the wait of this pass and its one attempt, \<open>n + 1\<close> attempts
  in all, and nothing follows; when the response answers the first attempt, the only
  effect is that attempt, with no wait at all. If the status is 500 or more, the error
  is recorded and the loop goes on with pass \<open>n + 1\<close>.
\<close>

theorem sendRequest_client_error_no_retry:
  assumes "newRequest marshal url_Parse c endpoint payload = Inr req"
    and "passes unmarshal c req env n 0 None result [] = Some (lastErr, res, tr)"
    and "int n \<le> sint (MaxRetries (config c))"
    and "n = 0 \<or> select_result (env n) = TimerFired"
    and "do_result (env n) = Inr resp" and "resp_Body resp = Inr body"
    and "400 \<le> resp_StatusCode resp"
  shows "(resp_StatusCode resp < 500 \<longrightarrow>
            sendRequest marshal url_Parse unmarshal c env endpoint payload result
              = Some (Some (API (responseError (resp_StatusCode resp) body)), res,
                      tr @ (if 0 < n then [After (RetryDelay (config c) * of_nat n)] else [])
                         @ [Do req])
            \<and> sends (tr @ (if 0 < n then [After (RetryDelay (config c) * of_nat n)] else [])
                         @ [Do req]) = replicate (n + 1) req)
       \<and> (resp_StatusCode resp < 500 \<and> n = 0 \<longrightarrow>
            sendRequest marshal url_Parse unmarshal c env endpoint payload result
              = Some (Some (API (responseError (resp_StatusCode resp) body)), result, [Do req]))
       \<and> (500 \<le> resp_StatusCode resp \<longrightarrow>
            sendRequest marshal url_Parse unmarshal c env endpoint payload result
              = retry_loop unmarshal c req (\<lambda>i. env (i + Suc n)) (of_nat (Suc n))
                  (Some (API (responseError (resp_StatusCode resp) body))) res
                  (tr @ (if 0 < n then [After (RetryDelay (config c) * of_nat n)] else [])
                      @ [Do req]))"
proof -
  have "sint (MaxRetries (config c)) < 2 ^ 63"
    using sint_lt[of "MaxRetries (config c)"] by simp
  with assms(3) have n: "n < 2 ^ 63" by simp
  note ab = attempt_body_api_error[OF n assms(4-7), where um=unmarshal and c=c and req=req and r=res]
  note sr = sendRequest_at_pass[OF assms(1-3)]
  have s: "sends tr = replicate n req"
    using passes_sends[OF assms(2)] by simp
  have first: "n = 0 \<Longrightarrow> res = result \<and> tr = []"
    using assms(2) by simp
  let ?evs = "tr @ (if 0 < n then [After (RetryDelay (config c) * of_nat n)] else []) @ [Do req]"
  let ?e = "API (responseError (resp_StatusCode resp) body)"
  have A: "sendRequest marshal url_Parse unmarshal c env endpoint payload result
           = Some (Some ?e, res, ?evs)" if "resp_StatusCode resp < 500"
    using that by (simp add: sr ab del: of_nat_Suc)
  have B: "sendRequest marshal url_Parse unmarshal c env endpoint payload result
           = retry_loop unmarshal c req (\<lambda>i. env (i + Suc n)) (of_nat (Suc n)) (Some ?e) res ?evs"
    if "500 \<le> resp_StatusCode resp"
    using that by (simp add: sr ab del: of_nat_Suc)
  have C: "sends ?evs = replicate (n + 1) req"
    by (simp add: sends_append s replicate_app_Cons_same)
  have D: "sendRequest marshal url_Parse unmarshal c env endpoint payload result
           = Some (Some ?e, result, [Do req])" if "resp_StatusCode resp < 500" "n = 0"
    using A[OF that(1)] first[OF that(2)] that(2) by simp
  show ?thesis
    using A B C D by blast
qed

theorem sendRequest_client_error_no_retry_witness:
  "sendRequest marshal_unit url_ok unmarshal_caption test_client
     (replies \<lparr>resp_StatusCode = 404, resp_Body = Inr ''not found''\<rparr>) ''/query'' () []
   = Some (Some (API \<lparr>StatusCode = 404, Message = ''not found''\<rparr>), [],
           [Do (test_request ''/query'')])"
proof -
  let ?resp = "\<lparr>resp_StatusCode = 404, resp_Body = Inr ''not found''\<rparr>"
  have p: "passes unmarshal_caption test_client (test_request ''/query'') (replies ?resp)
             0 0 None [] [] = Some (None, [], [])"
    by simp
  have m: "int 0 \<le> sint (MaxRetries (config test_client))"
    by (simp add: test_client_config)
  have e: "responseError 404 ''not found'' = \<lparr>StatusCode = 404, Message = ''not found''\<rparr>"
    by (simp add: responseError_def not_json)
  from sendRequest_client_error_no_retry[OF test_newRequest p m, of ?resp "''not found''"] e
  show ?thesis
    by (simp add: replies_def)
qed

text \<open>
  C4. Let pass \<open>n > 0\<close> of an invocation be reached, and let the context be done
  before the timer of its wait fires. Then the invocation returns the context's error
  at once: the effects are those of the earlier passes and the wait that was entered;
  the \<open>n\<close> attempts of the earlier passes are all the attempts made.
\<close>

theorem sendRequest_cancelled_during_wait:
  assumes "newRequest marshal url_Parse c endpoint payload = Inr req"
    and "passes unmarshal c req env n 0 None result [] = Some (lastErr, res, tr)"
    and "0 < n" and "int n \<le> sint (MaxRetries (config c))"
    and "select_result (env n) = CtxDone e"
  shows "sendRequest marshal url_Parse unmarshal c env endpoint payload result
           = Some (Some (CtxError e), res, tr @ [After (RetryDelay (config c) * of_nat n)])
       \<and> sends (tr @ [After (RetryDelay (config c) * of_nat n)]) = replicate n req"
proof -
  have "sint (MaxRetries (config c)) < 2 ^ 63"
    using sint_lt[of "MaxRetries (config c)"] by simp
  with assms(4) have n: "n < 2 ^ 63" by simp
  note ab = attempt_body_cancelled[OF n assms(3,5), where um=unmarshal and c=c and req=req and r=res]
  note sr = sendRequest_at_pass[OF assms(1,2,4)]
  have s: "sends tr = replicate n req"
    using passes_sends[OF assms(2)] by simp
  show ?thesis
    by (simp add: sr ab sends_append s del: of_nat_Suc)
qed

theorem sendRequest_cancelled_during_wait_witness:
  "sendRequest marshal_unit url_ok unmarshal_caption test_client
     (\<lambda>i. if i = 0 then \<lparr>select_result = TimerFired, do_result = Inl (LibError ''connection refused'')\<rparr>
          else \<lparr>select_result = CtxDone Canceled, do_result = Inl (LibError ''connection refused'')\<rparr>)
     ''/caption'' () []
   = Some (Some (CtxError Canceled), [], [Do (test_request ''/caption''), After 1000000000])"
proof -
  let ?env = "\<lambda>i::nat. if i = 0
      then \<lparr>select_result = TimerFired, do_result = Inl (LibError ''connection refused'')\<rparr>
      else \<lparr>select_result = CtxDone Canceled, do_result = Inl (LibError ''connection refused'')\<rparr>"
  have p: "passes unmarshal_caption test_client (test_request ''/caption'') ?env (Suc 0) 0 None [] []
           = Some (Some (Errorf ''failed to send request'' (Some (LibError ''connection refused''))),
                   [], [Do (test_request ''/caption'')])"
    by (simp add: attempt_body_def word_sless_alt)
  have m: "int (Suc 0) \<le> sint (MaxRetries (config test_client))"
    by (simp add: test_client_config)
  have s: "select_result (?env (Suc 0)) = CtxDone Canceled"
    by simp
  from sendRequest_cancelled_during_wait[OF test_newRequest p _ m s]
  show ?thesis
    by (simp add: test_client_config)
qed

text \<open>
  C7. Let pass \<open>n\<close> of an invocation be reached, its wait, if any, elapse, and its
  attempt receive a response with status below 400 whose body fails to unmarshal into
  the result. Then the pass does not return: the decode error is recorded as the last
  error and the loop goes on with pass \<open>n + 1\<close>. The pass has used one attempt of the
  budget: when it was the last one allowed, the invocation returns
  \<^verbatim>\<open>max retries exceeded\<close> wrapping that decode error.
\<close>

theorem sendRequest_decode_error_retried:
  assumes "newRequest marshal url_Parse c endpoint payload = Inr req"
    and "passes unmarshal c req env n 0 None result [] = Some (lastErr, res, tr)"
    and "int n \<le> sint (MaxRetries (config c))"
    and "n = 0 \<or> select_result (env n) = TimerFired"
    and "do_result (env n) = Inr resp" and "resp_Body resp = Inr body"
    and "resp_StatusCode resp < 400"
    and "unmarshal body res = (Some err, res')"
  shows "sendRequest marshal url_Parse unmarshal c env endpoint payload result
           = retry_loop unmarshal c req (\<lambda>i. env (i + Suc n)) (of_nat (Suc n))
               (Some (Errorf ''failed to unmarshal response'' (Some err))) res'
               (tr @ (if 0 < n then [After (RetryDelay (config c) * of_nat n)] else []) @ [Do req])
       \<and> (int n = sint (MaxRetries (config c)) \<and> MaxRetries (config c) \<noteq> 0x7FFFFFFFFFFFFFFF \<longrightarrow>
            sendRequest marshal url_Parse unmarshal c env endpoint payload result
              = Some (Some (Errorf ''max retries exceeded''
                              (Some (Errorf ''failed to unmarshal response'' (Some err)))),
                      res',
                      tr @ (if 0 < n then [After (RetryDelay (config c) * of_nat n)] else [])
                         @ [Do req]))"
proof -
  have "sint (MaxRetries (config c)) < 2 ^ 63"
    using sint_lt[of "MaxRetries (config c)"] by simp
  with assms(3) have n: "n < 2 ^ 63" by simp
  note ab = attempt_body_decode_error[where um=unmarshal and r=res and c=c and req=req, OF n assms(4-8)]
  note sr = sendRequest_at_pass[OF assms(1-3)]
  let ?evs = "tr @ (if 0 < n then [After (RetryDelay (config c) * of_nat n)] else []) @ [Do req]"
  let ?e = "Errorf ''failed to unmarshal response'' (Some err)"
  have A: "sendRequest marshal url_Parse unmarshal c env endpoint payload result
           = retry_loop unmarshal c req (\<lambda>i. env (i + Suc n)) (of_nat (Suc n)) (Some ?e) res' ?evs"
    by (simp add: sr ab del: of_nat_Suc)
  have B: "retry_loop unmarshal c req (\<lambda>i. env (i + Suc n)) (of_nat (Suc n)) (Some ?e) res' ?evs
           = Some (Some (Errorf ''max retries exceeded'' (Some ?e)), res', ?evs)"
    if "int n = sint (MaxRetries (config c))" "MaxRetries (config c) \<noteq> 0x7FFFFFFFFFFFFFFF"
    using that by (intro retry_loop_exhausted) simp_all
  show ?thesis
    using A B by simp
qed

theorem sendRequest_decode_error_retried_witness:
  "sendRequest marshal_unit url_ok unmarshal_caption test_client
     (replies \<lparr>resp_StatusCode = 200, resp_Body = Inr ''<html>''\<rparr>) ''/caption'' () []
   = Some (Some (Errorf ''max retries exceeded''
                  (Some (Errorf ''failed to unmarshal response'' (Some (LibError ''cannot unmarshal''))))),
           [],
           [Do (test_request ''/caption''), After 1000000000,
            Do (test_request ''/caption''), After 2000000000,
            Do (test_request ''/caption''), After 3000000000,
            Do (test_request ''/caption'')])"
proof -
  let ?resp = "\<lparr>resp_StatusCode = 200, resp_Body = Inr ''<html>''\<rparr>"
  let ?e = "Errorf ''failed to unmarshal response'' (Some (LibError ''cannot unmarshal''))"
  have u: "unmarshal_caption ''<html>'' [] = (Some (LibError ''cannot unmarshal''), [])"
    by (simp add: unmarshal_caption_def)
  have p: "passes unmarshal_caption test_client (test_request ''/caption'') (replies ?resp)
             (Suc (Suc (Suc 0))) 0 None [] []
           = Some (Some ?e, [],
               [Do (test_request ''/caption''), After 1000000000,
                Do (test_request ''/caption''), After 2000000000,
                Do (test_request ''/caption'')])"
    by (simp add: attempt_body_def word_sless_alt replies_def u test_client_config)
  have m: "int (Suc (Suc (Suc 0))) \<le> sint (MaxRetries (config test_client))"
    by (simp add: test_client_config)
  have r: "do_result (replies ?resp (Suc (Suc (Suc 0)))) = Inr ?resp"
    "Suc (Suc (Suc 0)) = 0 \<or> select_result (replies ?resp (Suc (Suc (Suc 0)))) = TimerFired"
    by (simp_all add: replies_def)
  from sendRequest_decode_error_retried[OF test_newRequest p m r(2) r(1) _ _ u, THEN conjunct2]
  show ?thesis
    by (simp add: test_client_config)
qed

section \<open>API errors\<close>

text \<open>
  C6, as stated, covers every response with status 400 or more. When the body of such
  a response cannot be read, nothing is parsed and no \<^verbatim>\<open>APIError\<close> is made: the
  pass records the failed read and the loop goes on. Against a server that answers
  401 with an unreadable body every time, the test client makes four attempts and
  returns \<^verbatim>\<open>max retries exceeded\<close> wrapping the failed read.
\<close>

theorem sendRequest_unread_body_gives_no_api_error:
  "sendRequest marshal_unit url_ok unmarshal_caption test_client
     (replies \<lparr>resp_StatusCode = 401, resp_Body = Inl (LibError ''connection reset'')\<rparr>)
     ''/caption'' () []
   = Some (Some (Errorf ''max retries exceeded''
                  (Some (Errorf ''failed to read response body''
                          (Some (LibError ''connection reset''))))),
           [],
           [Do (test_request ''/caption''), After 1000000000,
            Do (test_request ''/caption''), After 2000000000,
            Do (test_request ''/caption''), After 3000000000,
            Do (test_request ''/caption'')])"
proof -
  let ?env = "replies \<lparr>resp_StatusCode = 401, resp_Body = Inl (LibError ''connection reset'')\<rparr>"
  have m: "MaxRetries (config test_client) \<noteq> 0x7FFFFFFFFFFFFFFF"
    "int 0 + int (Suc (Suc (Suc (Suc 0)))) = sint (MaxRetries (config test_client)) + 1"
    by (simp_all add: test_client_config)
  have "sendRequest marshal_unit url_ok unmarshal_caption test_client ?env ''/caption'' () []
        = retry_loop unmarshal_caption test_client (test_request ''/caption'') ?env (of_nat 0) None [] []"
    by (simp add: sendRequest_def test_newRequest)
  also have "\<dots> = Some (bounded_loop unmarshal_caption test_client (test_request ''/caption'') ?env
                        (Suc (Suc (Suc (Suc 0)))) 0 None [] [])"
    using m by (rule retry_loop_bounded)
  finally show ?thesis
    by (simp add: attempt_body_def replies_def word_sless_alt test_client_config)
qed

text \<open>
  C6, amended. Let pass \<open>n\<close> of an invocation be reached, its wait, if any, elapse,
  and its attempt receive a response with status 400 or more whose body is read. The
  error of the pass is an \<^verbatim>\<open>APIError\<close>: the one \<^verbatim>\<open>json.Unmarshal\<close> decodes from the
  body when it succeeds, and otherwise (in particular when the body is not JSON) the
  one whose status code is the HTTP status and whose message is the body as it is. It
  is returned at once when the status is below 500 and recorded for the next pass
  otherwise. A 401 response to the first attempt with the body
  \<^verbatim>\<open>{"status_code":401,"message":"invalid key"}\<close> gives the \<^verbatim>\<open>APIError\<close> with status
  code 401 and message \<^verbatim>\<open>invalid key\<close> after that one attempt.
\<close>

theorem sendRequest_api_error:
  assumes "newRequest marshal url_Parse c endpoint payload = Inr req"
    and "passes unmarshal c req env n 0 None result [] = Some (lastErr, res, tr)"
    and "int n \<le> sint (MaxRetries (config c))"
    and "n = 0 \<or> select_result (env n) = TimerFired"
    and "do_result (env n) = Inr resp" and "resp_Body resp = Inr body"
    and "400 \<le> resp_StatusCode resp"
  shows "\<exists>apiErr.
           (case json_Unmarshal_APIError body of
              Inr a \<Rightarrow> apiErr = a
            | Inl err \<Rightarrow> apiErr = \<lparr>StatusCode = resp_StatusCode resp, Message = body\<rparr>)
         \<and> (parseJSON body = None
              \<longrightarrow> apiErr = \<lparr>StatusCode = resp_StatusCode resp, Message = body\<rparr>)
         \<and> (resp_StatusCode resp < 500 \<longrightarrow>
              sendRequest marshal url_Parse unmarshal c env endpoint payload result
                = Some (Some (API apiErr), res,
                        tr @ (if 0 < n then [After (RetryDelay (config c) * of_nat n)] else [])
                           @ [Do req]))
         \<and> (500 \<le> resp_StatusCode resp \<longrightarrow>
              sendRequest marshal url_Parse unmarshal c env endpoint payload result
                = retry_loop unmarshal c req (\<lambda>i. env (i + Suc n)) (of_nat (Suc n))
                    (Some (API apiErr)) res
                    (tr @ (if 0 < n then [After (RetryDelay (config c) * of_nat n)] else [])
                        @ [Do req]))
         \<and> (n = 0 \<and> resp_StatusCode resp = 401
               \<and> body = ''{\"status_code\":401,\"message\":\"invalid key\"}'' \<longrightarrow>
              sendRequest marshal url_Parse unmarshal c env endpoint payload result
                = Some (Some (API \<lparr>StatusCode = 401, Message = ''invalid key''\<rparr>), result,
                        [Do req]))"
proof -
  have "sint (MaxRetries (config c)) < 2 ^ 63"
    using sint_lt[of "MaxRetries (config c)"] by simp
  with assms(3) have n: "n < 2 ^ 63" by simp
  note ab = attempt_body_api_error[OF n assms(4-7), where um=unmarshal and c=c and req=req and r=res]
  note sr = sendRequest_at_pass[OF assms(1-3)]
  let ?evs = "tr @ (if 0 < n then [After (RetryDelay (config c) * of_nat n)] else []) @ [Do req]"
  let ?a = "responseError (resp_StatusCode resp) body"
  have A: "sendRequest marshal url_Parse unmarshal c env endpoint payload result
           = Some (Some (API ?a), res, ?evs)" if "resp_StatusCode resp < 500"
    using that by (simp add: sr ab del: of_nat_Suc)
  have B: "sendRequest marshal url_Parse unmarshal c env endpoint payload result
           = retry_loop unmarshal c req (\<lambda>i. env (i + Suc n)) (of_nat (Suc n)) (Some (API ?a)) res ?evs"
    if "500 \<le> resp_StatusCode resp"
    using that by (simp add: sr ab del: of_nat_Suc)
  have first: "n = 0 \<Longrightarrow> res = result \<and> tr = []"
    using assms(2) by simp
  have C: "sendRequest marshal url_Parse unmarshal c env endpoint payload result
           = Some (Some (API \<lparr>StatusCode = 401, Message = ''invalid key''\<rparr>), result, [Do req])"
    if "n = 0" "resp_StatusCode resp = 401"
      "body = ''{\"status_code\":401,\"message\":\"invalid key\"}''"
  proof -
    have "?a = \<lparr>StatusCode = 401, Message = ''invalid key''\<rparr>"
      unfolding that(3) by (simp add: responseError_def unmarshal_invalid_key)
    with A first[OF that(1)] that(1,2) show ?thesis by simp
  qed
  show ?thesis
    using responseError_cases[where body=body and status="resp_StatusCode resp"]
      responseError_syntax_error[where body=body and status="resp_StatusCode resp"] A B C
    by (intro exI[of _ ?a]) blast
qed

theorem sendRequest_api_error_witness:
  "sendRequest marshal_unit url_ok unmarshal_caption test_client
     (replies \<lparr>resp_StatusCode = 401,
               resp_Body = Inr ''{\"status_code\":401,\"message\":\"invalid key\"}''\<rparr>)
     ''/query'' () []
   = Some (Some (API \<lparr>StatusCode = 401, Message = ''invalid key''\<rparr>), [],
           [Do (test_request ''/query'')])"
proof -
  let ?body = "''{\"status_code\":401,\"message\":\"invalid key\"}''"
  let ?resp = "\<lparr>resp_StatusCode = 401, resp_Body = Inr ?body\<rparr>"
  have p: "passes unmarshal_caption test_client (test_request ''/query'') (replies ?resp)
             0 0 None [] [] = Some (None, [], [])"
    by simp
  have m: "int 0 \<le> sint (MaxRetries (config test_client))"
    by (simp add: test_client_config)
  have r: "do_result (replies ?resp 0) = Inr ?resp" "resp_Body ?resp = Inr ?body"
    "400 \<le> resp_StatusCode ?resp"
    by (simp_all add: replies_def)
  from sendRequest_api_error[OF test_newRequest p m _ r]
  show ?thesis
    by auto
qed

text \<open>
  C9, as stated, covers every body that is valid JSON and has no \<^verbatim>\<open>status_code\<close>
  field. The body \<^verbatim>\<open>{"message":404}\<close> is such a body, but \<^verbatim>\<open>json.Unmarshal\<close> fails
  on it (a number cannot be stored into the string \<^verbatim>\<open>Message\<close>), so the error is
  synthesised and carries the HTTP status 404, not 0.
\<close>

theorem sendRequest_object_without_status_code_gets_http_status:
  "sendRequest marshal_unit url_ok unmarshal_caption test_client
     (replies \<lparr>resp_StatusCode = 404, resp_Body = Inr ''{\"message\":404}''\<rparr>) ''/query'' () []
   = Some (Some (API \<lparr>StatusCode = 404, Message = ''{\"message\":404}''\<rparr>), [],
           [Do (test_request ''/query'')])
   \<and> parseJSON ''{\"message\":404}'' = Some (JObject [(''message'', JNumber ''404'')])
   \<and> findField ''message'' = Some F_Message
   \<and> json_Unmarshal_APIError ''{\"message\":404}'' = Inl (UnmarshalTypeError ''number'')"
proof -
  have le: "(0 :: go_int) \<le>s MaxRetries (config test_client)"
    by (simp add: test_client_config word_sle_eq)
  have j: "parseJSON ''{\"message\":404}'' = Some (JObject [(''message'', JNumber ''404'')])"
    by (simp add: parseJSON_def isSpace_def isDigit_def byteval_def
      scanNumber_def scanInt_def scanFrac_def scanExp_def scanDigits_def isPrefixAt_def
      parseStep_def beginValue_def closeFrame_def maxNestingDepth_def)
  have f: "findField ''message'' = Some F_Message"
    by (simp add: findField_def fieldNames_def)
  have u: "json_Unmarshal_APIError ''{\"message\":404}'' = Inl (UnmarshalTypeError ''number'')"
    by (simp add: json_Unmarshal_APIError_def j decodeAPIError_def f storeField_def saveError_def
        describe_def)
  have run: "sendRequest marshal_unit url_ok unmarshal_caption test_client
     (replies \<lparr>resp_StatusCode = 404, resp_Body = Inr ''{\"message\":404}''\<rparr>) ''/query'' () []
   = Some (Some (API \<lparr>StatusCode = 404, Message = ''{\"message\":404}''\<rparr>), [],
           [Do (test_request ''/query'')])"
    unfolding sendRequest_def test_newRequest
    by (subst retry_loop.simps)
       (simp add: le attempt_body_def replies_def responseError_def u word_sless_alt)
  show ?thesis
    using run j f u by simp
qed

text \<open>
  C9, amended. Let pass \<open>n\<close> of an invocation be reached, its wait, if any, elapse,
  and its attempt receive a response with status 400 or more whose body is read. If
  \<^verbatim>\<open>json.Unmarshal\<close> decodes the body into an \<^verbatim>\<open>APIError\<close> without error, and the
  body is not an object with a member that is stored into \<^verbatim>\<open>StatusCode\<close> (a member
  named \<^verbatim>\<open>status_code\<close>, compared without regard to case), then the \<^verbatim>\<open>APIError\<close> of
  the pass has status code 0, not the HTTP status: the synthesis branch is not taken.
  The body \<^verbatim>\<open>{}\<close> is the example.
\<close>

theorem sendRequest_api_error_without_status_code:
  assumes "newRequest marshal url_Parse c endpoint payload = Inr req"
    and "passes unmarshal c req env n 0 None result [] = Some (lastErr, res, tr)"
    and "int n \<le> sint (MaxRetries (config c))"
    and "n = 0 \<or> select_result (env n) = TimerFired"
    and "do_result (env n) = Inr resp" and "resp_Body resp = Inr body"
    and "400 \<le> resp_StatusCode resp"
    and "json_Unmarshal_APIError body = Inr apiErr"
    and "parseJSON body = Some v" and "\<not> names_status_code v"
  shows "StatusCode apiErr = 0
       \<and> (resp_StatusCode resp < 500 \<longrightarrow>
            sendRequest marshal url_Parse unmarshal c env endpoint payload result
              = Some (Some (API apiErr), res,
                      tr @ (if 0 < n then [After (RetryDelay (config c) * of_nat n)] else [])
                         @ [Do req]))
       \<and> (500 \<le> resp_StatusCode resp \<longrightarrow>
            sendRequest marshal url_Parse unmarshal c env endpoint payload result
              = retry_loop unmarshal c req (\<lambda>i. env (i + Suc n)) (of_nat (Suc n))
                  (Some (API apiErr)) res
                  (tr @ (if 0 < n then [After (RetryDelay (config c) * of_nat n)] else [])
                      @ [Do req]))"
proof -
  have "sint (MaxRetries (config c)) < 2 ^ 63"
    using sint_lt[of "MaxRetries (config c)"] by simp
  with assms(3) have n: "n < 2 ^ 63" by simp
  note ab = attempt_body_api_error[OF n assms(4-7), where um=unmarshal and c=c and req=req and r=res]
  note sr = sendRequest_at_pass[OF assms(1-3)]
  have e: "responseError (resp_StatusCode resp) body = apiErr"
    by (simp add: responseError_def assms(8))
  have z: "StatusCode apiErr = 0"
    using assms(8-10) by (rule unmarshal_without_status_code)
  show ?thesis
    by (simp add: z sr ab e del: of_nat_Suc)
qed

theorem sendRequest_api_error_without_status_code_witness:
  "sendRequest marshal_unit url_ok unmarshal_caption test_client
     (replies \<lparr>resp_StatusCode = 404, resp_Body = Inr ''{}''\<rparr>) ''/query'' () []
   = Some (Some (API \<lparr>StatusCode = 0, Message = []\<rparr>), [], [Do (test_request ''/query'')])"
proof -
  let ?resp = "\<lparr>resp_StatusCode = 404, resp_Body = Inr ''{}''\<rparr>"
  have p: "passes unmarshal_caption test_client (test_request ''/query'') (replies ?resp)
             0 0 None [] [] = Some (None, [], [])"
    by simp
  have m: "int 0 \<le> sint (MaxRetries (config test_client))"
    by (simp add: test_client_config)
  have r: "do_result (replies ?resp 0) = Inr ?resp" "resp_Body ?resp = Inr ''{}''"
    "400 \<le> resp_StatusCode ?resp"
    by (simp_all add: replies_def)
  have j: "parseJSON ''{}'' = Some (JObject [])"
    by (simp add: parseJSON_def isSpace_def parseStep_def beginValue_def closeFrame_def
        maxNestingDepth_def)
  have u: "json_Unmarshal_APIError ''{}'' = Inr \<lparr>StatusCode = 0, Message = []\<rparr>"
    by (simp add: json_Unmarshal_APIError_def j decodeAPIError_def)
  have k: "\<not> names_status_code (JObject [])"
    by (simp add: names_status_code_def)
  from sendRequest_api_error_without_status_code[OF test_newRequest p m _ r u j k]
  show ?thesis
    by simp
qed

end
